theory Spec2Isabelle
  imports Main "HOL-Library.Word"
begin

unbundle bit_operations_syntax

section \<open>Data model of \<^verbatim>\<open>app.c\<close>\<close>

text \<open>
  The firmware runs on a 32-bit little-endian target. A C \<^verbatim>\<open>int\<close> and a
  \<^verbatim>\<open>uint32_t\<close> are both \<open>32 word\<close>: the bits are the same and only the reading
  differs, so a signed comparison of the source is written \<open><s\<close> or \<open>\<le>s\<close> and
  an unsigned one \<open><\<close> or \<open>\<le>\<close>; \<open>div\<close> and \<open>mod\<close> on words are the
  unsigned operations. \<^verbatim>\<open>absolute_time_t\<close> is a \<^verbatim>\<open>uint64_t\<close> count of
  microseconds since boot. Signed overflow wraps, as the target does.
\<close>

type_synonym c_int = "32 word"
type_synonym uint32_t = "32 word"
type_synonym uint64_t = "64 word"
type_synonym uint8_t = "8 word"

definition MAX_PROFILES :: nat where
  "MAX_PROFILES = 5"

definition MAX_PERIODS :: nat where
  "MAX_PERIODS = 6"

definition PUMP_RUN_MINUTES :: "32 word" where
  "PUMP_RUN_MINUTES = 5"

definition PUMP_WAIT_MINUTES :: "32 word" where
  "PUMP_WAIT_MINUTES = 30"

definition PUMP_TOTAL_MINUTES :: "32 word" where
  "PUMP_TOTAL_MINUTES = PUMP_RUN_MINUTES + PUMP_WAIT_MINUTES"

record period_t =
  duration :: c_int
  led_white_red_power :: c_int
  led_blue_power :: c_int

text \<open>
  \<^verbatim>\<open>char name[16]\<close> is kept as its raw bytes and \<^verbatim>\<open>periods[MAX_PERIODS]\<close> as a
  list; the fixed sizes of the C arrays are the well-formedness predicates below.
\<close>

record profile_t =
  name :: "uint8_t list"
  periods :: "period_t list"

record app_state_t =
  period_index :: c_int
  white_red :: c_int
  blue :: c_int
  pump :: bool
  pump_minutes_left :: c_int
  period_minutes_left :: c_int

datatype app_mode_t =
  MODE_SHOW_STATE
  | MODE_SHOW_PROFILE
  | MODE_EDIT_PROFILE
  | MODE_EDIT_PERIOD
  | MODE_EDIT_WR_LEVEL
  | MODE_EDIT_BL_LEVEL
  | MODE_EDIT_DURATION
  | MODE_TOP_MENU
  | MODE_TIME_SHIFT

datatype top_menu_action_t =
  TOP_MENU_SHIFT
  | TOP_MENU_SAVE
  | TOP_MENU_RELOAD
  | TOP_MENU_FLASH

datatype edit_mode_t =
  EDIT_BACK
  | EDIT_DURATION
  | EDIT_WR_LEVEL
  | EDIT_BL_LEVEL

definition wf_profile :: "profile_t \<Rightarrow> bool" where
  "wf_profile p \<longleftrightarrow> length (name p) = 16 \<and> length (periods p) = MAX_PERIODS"

definition wf_profiles :: "profile_t list \<Rightarrow> bool" where
  "wf_profiles ps \<longleftrightarrow> length ps = MAX_PROFILES \<and> list_all wf_profile ps"

section \<open>Schedule engine: \<^verbatim>\<open>app_calculate_state\<close>\<close>

text \<open>\<^verbatim>\<open>uint32_t minutes = us / 1000000 / 60\<close>: 64-bit division, then truncation.\<close>

definition minutes_of_us :: "uint64_t \<Rightarrow> uint32_t" where
  "minutes_of_us us = ucast (us div 1000000 div 60)"

text \<open>
  Both loops of the engine run over the \<^verbatim>\<open>MAX_PERIODS\<close> slots of the array in order, here
  over the elements of the list. The first loop:
  \<^verbatim>\<open>profile_total_minutes += profile->periods[i].duration\<close>.
\<close>

fun sum_durations :: "period_t list \<Rightarrow> uint32_t \<Rightarrow> uint32_t" where
  "sum_durations [] profile_total_minutes = profile_total_minutes"
| "sum_durations (p # ps) profile_total_minutes =
     sum_durations ps (profile_total_minutes + duration p)"

text \<open>
  The pump block. It is given the minutes since the unshifted start time and the previous
  output state, and returns the local \<^verbatim>\<open>ret\<close> with the updated state.
\<close>

definition pump_block :: "uint32_t \<Rightarrow> app_state_t \<Rightarrow> bool \<times> app_state_t" where
  "pump_block minutes_since_start st =
     (let pump_cycle_position = minutes_since_start mod PUMP_TOTAL_MINUTES in
      if pump_cycle_position < PUMP_RUN_MINUTES then
        (if \<not> pump st then
           (True, st\<lparr>pump := True, pump_minutes_left := PUMP_RUN_MINUTES - pump_cycle_position\<rparr>)
         else
           (pump_minutes_left st \<noteq> PUMP_RUN_MINUTES - pump_cycle_position,
            st\<lparr>pump_minutes_left := PUMP_RUN_MINUTES - pump_cycle_position\<rparr>))
      else
        (if pump st then
           (True, st\<lparr>pump := False, pump_minutes_left := PUMP_TOTAL_MINUTES - pump_cycle_position\<rparr>)
         else
           (pump_minutes_left st \<noteq> PUMP_TOTAL_MINUTES - pump_cycle_position,
            st\<lparr>pump_minutes_left := PUMP_TOTAL_MINUTES - pump_cycle_position\<rparr>)))"

text \<open>
  The second loop, up to the point where it decides: \<open>find_period ps i mss elapsed\<close>
  walks the remaining slots \<open>ps\<close> from index \<open>i\<close> with \<^verbatim>\<open>elapsed_minutes = elapsed\<close>
  and returns the index, the period and \<^verbatim>\<open>elapsed_minutes + period->duration -
  minutes_since_start\<close> of the first slot the loop body accepts, or \<open>None\<close> when the loop
  runs to its end.
\<close>

fun find_period ::
  "period_t list \<Rightarrow> c_int \<Rightarrow> uint32_t \<Rightarrow> uint32_t \<Rightarrow> (c_int \<times> period_t \<times> uint32_t) option" where
  "find_period [] i minutes_since_start elapsed_minutes = None"
| "find_period (period # ps) i minutes_since_start elapsed_minutes =
     (if duration period = 0 then find_period ps (i + 1) minutes_since_start elapsed_minutes
      else if minutes_since_start < elapsed_minutes + duration period then
        Some (i, period, elapsed_minutes + duration period - minutes_since_start)
      else find_period ps (i + 1) minutes_since_start (elapsed_minutes + duration period))"

text \<open>
  The body of \<^verbatim>\<open>app_calculate_state\<close> on the profile it selected: \<open>now\<close> is
  \<^verbatim>\<open>get_absolute_time()\<close>, \<open>start\<close> is \<^verbatim>\<open>app_start_time\<close>, \<open>start0\<close> is
  \<^verbatim>\<open>app_start_time_without_shift\<close> and \<open>st\<close> is \<^verbatim>\<open>current_app_state\<close>. The
  result is the returned flag and the new \<^verbatim>\<open>current_app_state\<close>.
\<close>

definition calculate_state ::
  "uint64_t \<Rightarrow> uint64_t \<Rightarrow> uint64_t \<Rightarrow> profile_t \<Rightarrow> app_state_t \<Rightarrow> bool \<times> app_state_t" where
  "calculate_state now start start0 profile st =
     (let minutes_since_start = minutes_of_us (now - start);
          profile_total_minutes = sum_durations (periods profile) 0
      in
      if profile_total_minutes = 0 then
        (if white_red st \<noteq> 0 \<or> blue st \<noteq> 0 then (True, st\<lparr>white_red := 0, blue := 0\<rparr>)
         else (False, st))
      else
        (let (ret, st1) = pump_block (minutes_of_us (now - start0)) st;
             minutes_since_start =
               (if profile_total_minutes \<le> minutes_since_start
                then minutes_since_start mod profile_total_minutes
                else minutes_since_start)
         in
         case find_period (periods profile) 0 minutes_since_start 0 of
           Some (i, period, left) \<Rightarrow>
             if white_red st1 \<noteq> led_white_red_power period
                \<or> blue st1 \<noteq> led_blue_power period
                \<or> period_minutes_left st1 \<noteq> left
                \<or> period_index st1 \<noteq> i
             then
               (True, st1\<lparr>white_red := led_white_red_power period,
                          blue := led_blue_power period,
                          period_minutes_left := left,
                          period_index := i\<rparr>)
             else (ret, st1)
         | None \<Rightarrow>
             if white_red st1 \<noteq> 0 \<or> blue st1 \<noteq> 0 \<or> period_minutes_left st1 \<noteq> 0 then
               (True, st1\<lparr>white_red := 0, blue := 0, period_minutes_left := 0\<rparr>)
             else (ret, st1)))"

text \<open>The position in the light cycle that the second loop is run with.\<close>

definition cycle_position :: "uint64_t \<Rightarrow> uint64_t \<Rightarrow> profile_t \<Rightarrow> uint32_t" where
  "cycle_position now start profile =
     (if sum_durations (periods profile) 0 \<le> minutes_of_us (now - start)
      then minutes_of_us (now - start) mod sum_durations (periods profile) 0
      else minutes_of_us (now - start))"

text \<open>The light fields the engine leaves behind when the total is not zero.\<close>

definition light_write :: "(c_int \<times> period_t \<times> uint32_t) option \<Rightarrow> app_state_t \<Rightarrow> app_state_t" where
  "light_write found st =
     (case found of
        Some (i, period, left) \<Rightarrow>
          st\<lparr>white_red := led_white_red_power period, blue := led_blue_power period,
             period_minutes_left := left, period_index := i\<rparr>
      | None \<Rightarrow> st\<lparr>white_red := 0, blue := 0, period_minutes_left := 0\<rparr>)"

text \<open>
  The ranges the editors keep a duration in (\<^verbatim>\<open>app_encoder_edit_duration\<close> clamps to
  \<open>0 .. 24 * 60\<close>), read as signed values.
\<close>

definition valid_durations :: "profile_t \<Rightarrow> bool" where
  "valid_durations p \<longleftrightarrow>
     list_all (\<lambda>q. 0 \<le>s duration q \<and> duration q \<le>s 24 * 60) (periods p)"

text \<open>
  The light schedule in the words of the specification, on natural numbers: the light
  total is the sum of the durations; the cumulative window of slot \<open>i\<close> starts at the sum
  of the durations before it and ends at that sum plus its own duration; the active
  period is the first slot, in array order and skipping zero durations, whose window
  contains the position.
\<close>

definition light_total :: "period_t list \<Rightarrow> nat" where
  "light_total ps = sum_list (map (\<lambda>q. unat (duration q)) ps)"

definition window_start :: "period_t list \<Rightarrow> nat \<Rightarrow> nat" where
  "window_start ps i = light_total (take i ps)"

definition window_end :: "period_t list \<Rightarrow> nat \<Rightarrow> nat" where
  "window_end ps i = light_total (take (Suc i) ps)"

definition spec_active_period :: "period_t list \<Rightarrow> nat \<Rightarrow> nat option" where
  "spec_active_period ps m =
     find (\<lambda>i. duration (ps ! i) \<noteq> 0 \<and> window_start ps i \<le> m \<and> m < window_end ps i)
       [0..<length ps]"

section \<open>Globals, actuator and display\<close>

text \<open>
  The file's static variables as one record. The last fields stand for the hardware: the
  last sector of the flash as the bytes read through the XIP window, the values last handed
  to the pump pin and the two PWM channels (as percentages), and the number of calls of
  \<^verbatim>\<open>app_redraw\<close> (the drawing routines themselves only read the state and write the
  display).
\<close>

record app =
  profiles :: "profile_t list"
  current_profile :: c_int
  app_start_time :: uint64_t
  app_start_time_without_shift :: uint64_t
  last_encoder_time :: uint64_t
  current_app_state :: app_state_t
  current_app_mode :: app_mode_t
  menu_profile_index :: c_int
  current_edit_period_index :: c_int
  current_edit_value :: edit_mode_t
  current_top_menu_action :: top_menu_action_t
  time_shift_hours :: c_int
  flash_buffer :: "uint8_t list"
  flash_sector :: "uint8_t list"
  pin_pump :: bool
  percent_white_red :: c_int
  percent_blue :: c_int
  redraws :: nat

text \<open>
  What a handler can end in instead of returning: an array read outside its bounds
  (undefined behaviour in C), or \<^verbatim>\<open>app_reboot_to_bootloader\<close>, which never returns.
\<close>

datatype fault = Out_Of_Bounds | Bootloader_Entered

text \<open>\<^verbatim>\<open>xs[i]\<close> with a C \<^verbatim>\<open>int\<close> index.\<close>

definition array_at :: "'a list \<Rightarrow> c_int \<Rightarrow> 'a option" where
  "array_at xs i =
     (if 0 \<le>s i \<and> sint i < int (length xs) then Some (xs ! nat (sint i)) else None)"

definition app_redraw :: "app \<Rightarrow> app" where
  "app_redraw s = s\<lparr>redraws := redraws s + 1\<rparr>"

text \<open>
  \<^verbatim>\<open>app_apply_state\<close> drives the pump pin and sets both PWM levels to
  \<^verbatim>\<open>percent * PWM_WRAP / 100\<close>; the model records the percentages it was given.
\<close>

definition app_apply_state :: "app \<Rightarrow> app" where
  "app_apply_state s =
     s\<lparr>pin_pump := pump (current_app_state s),
       percent_white_red := white_red (current_app_state s),
       percent_blue := blue (current_app_state s)\<rparr>"

text \<open>
  \<^verbatim>\<open>app_calculate_state\<close> on the globals. A handler reads the clock when it starts and
  \<^verbatim>\<open>app_calculate_state\<close> reads it again; the model takes both reads as the one instant
  \<open>now\<close>.
\<close>

definition app_calculate_state :: "uint64_t \<Rightarrow> app \<Rightarrow> fault + (bool \<times> app)" where
  "app_calculate_state now s =
     (case array_at (profiles s) (current_profile s) of
        None \<Rightarrow> Inl Out_Of_Bounds
      | Some profile \<Rightarrow>
          (let (ret, st) = calculate_state now (app_start_time s)
                             (app_start_time_without_shift s) profile (current_app_state s)
           in Inr (ret, s\<lparr>current_app_state := st\<rparr>)))"

section \<open>Persistence: \<^verbatim>\<open>app_save_profiles\<close> and \<^verbatim>\<open>app_reload_profiles\<close>\<close>

text \<open>
  \<^verbatim>\<open>memcpy\<close> copies object representations. An \<^verbatim>\<open>int\<close> is four bytes, least
  significant first; \<^verbatim>\<open>period_t\<close> is three of them (12 bytes), \<^verbatim>\<open>profile_t\<close> is the
  16 bytes of the name and six periods (88 bytes, no padding), and \<^verbatim>\<open>profiles\<close> is five
  profiles (440 bytes). \<^verbatim>\<open>FLASH_SECTOR_SIZE\<close> is 4096 in the SDK's header.
\<close>

definition FLASH_SECTOR_SIZE :: nat where
  "FLASH_SECTOR_SIZE = 4096"

definition le32 :: "c_int \<Rightarrow> uint8_t list" where
  "le32 w = [ucast w, ucast (drop_bit 8 w), ucast (drop_bit 16 w), ucast (drop_bit 24 w)]"

definition read_le32 :: "uint8_t list \<Rightarrow> c_int" where
  "read_le32 bs =
     ucast (bs ! 0) OR push_bit 8 (ucast (bs ! 1)) OR push_bit 16 (ucast (bs ! 2))
       OR push_bit 24 (ucast (bs ! 3))"

definition bytes_of_period :: "period_t \<Rightarrow> uint8_t list" where
  "bytes_of_period p = le32 (duration p) @ le32 (led_white_red_power p) @ le32 (led_blue_power p)"

definition period_of_bytes :: "uint8_t list \<Rightarrow> period_t" where
  "period_of_bytes bs =
     \<lparr>duration = read_le32 (take 4 bs),
      led_white_red_power = read_le32 (take 4 (drop 4 bs)),
      led_blue_power = read_le32 (take 4 (drop 8 bs))\<rparr>"

definition bytes_of_profile :: "profile_t \<Rightarrow> uint8_t list" where
  "bytes_of_profile p = name p @ concat (map bytes_of_period (periods p))"

definition profile_of_bytes :: "uint8_t list \<Rightarrow> profile_t" where
  "profile_of_bytes bs =
     \<lparr>name = take 16 bs,
      periods = map (\<lambda>k. period_of_bytes (take 12 (drop (16 + 12 * k) bs))) [0..<MAX_PERIODS]\<rparr>"

definition bytes_of_profiles :: "profile_t list \<Rightarrow> uint8_t list" where
  "bytes_of_profiles ps = concat (map bytes_of_profile ps)"

definition profiles_of_bytes :: "uint8_t list \<Rightarrow> profile_t list" where
  "profiles_of_bytes bs =
     map (\<lambda>k. profile_of_bytes (take 88 (drop (88 * k) bs))) [0..<MAX_PROFILES]"

definition sizeof_profiles :: nat where
  "sizeof_profiles = MAX_PROFILES * (16 + MAX_PERIODS * 12)"

text \<open>\<^verbatim>\<open>memcpy(buf + off, src, n)\<close> with \<open>bs\<close> the \<open>n\<close> bytes of the source.\<close>

definition memcpy_into :: "uint8_t list \<Rightarrow> nat \<Rightarrow> uint8_t list \<Rightarrow> uint8_t list" where
  "memcpy_into buf off bs = take off buf @ bs @ drop (off + length bs) buf"

text \<open>
  The sector is erased and programmed with the whole buffer; the two-second message on
  the display changes nothing in the state.
\<close>

definition app_save_profiles :: "app \<Rightarrow> app" where
  "app_save_profiles s =
     (let buf0 = memcpy_into (flash_buffer s) 0 [0xA5, 0x5A, 0xA5, 0x5A];
          buf1 = memcpy_into buf0 4 (le32 (current_profile s));
          buf2 = memcpy_into buf1 (4 + 4) (bytes_of_profiles (profiles s));
          s1 = s\<lparr>flash_buffer := buf2, flash_sector := buf2\<rparr>;
          s2 = s1\<lparr>menu_profile_index := current_profile s1,
                  current_app_mode := MODE_SHOW_STATE\<rparr>
      in app_redraw s2)"

definition magic_ok :: "uint8_t list \<Rightarrow> bool" where
  "magic_ok address \<longleftrightarrow>
     \<not> (address ! 0 \<noteq> 0xA5 \<or> address ! 1 \<noteq> 0x5A \<or> address ! 2 \<noteq> 0xA5 \<or> address ! 3 \<noteq> 0x5A)"

definition app_reload_profiles :: "bool \<Rightarrow> app \<Rightarrow> app" where
  "app_reload_profiles with_ui s =
     (let address = flash_sector s in
      if \<not> magic_ok address then (if with_ui then app_redraw s else s)
      else
        (let s1 = s\<lparr>current_profile := read_le32 (take 4 (drop 4 address))\<rparr>;
             s2 = s1\<lparr>profiles := profiles_of_bytes (take sizeof_profiles (drop (4 + 4) address))\<rparr>;
             s3 = (if current_profile s2 <s 0 \<or> word_of_nat MAX_PROFILES \<le>s current_profile s2
                   then s2\<lparr>current_profile := 0\<rparr> else s2);
             s4 = s3\<lparr>menu_profile_index := current_profile s3,
                     current_app_mode := MODE_SHOW_STATE\<rparr>
         in if with_ui then app_redraw s4 else s4))"

section \<open>Periodic tick\<close>

definition app_tick :: "uint64_t \<Rightarrow> app \<Rightarrow> fault + app" where
  "app_tick now s =
     (let s1 = (if 10000 * 6000 < now - last_encoder_time s
                   \<and> current_app_mode s \<noteq> MODE_SHOW_STATE
                then app_redraw (s\<lparr>current_app_mode := MODE_SHOW_STATE,
                                   menu_profile_index := current_profile s\<rparr>)
                else s)
      in
      if current_app_mode s1 = MODE_SHOW_STATE then
        (case app_calculate_state now s1 of
           Inl f \<Rightarrow> Inl f
         | Inr (changed, s2) \<Rightarrow> Inr (if changed then app_redraw (app_apply_state s2) else s2))
      else Inr s1)"

section \<open>Rotation handlers\<close>

text \<open>The enumerations take part in \<^verbatim>\<open>int\<close> arithmetic through their values.\<close>

fun top_menu_value :: "top_menu_action_t \<Rightarrow> c_int" where
  "top_menu_value TOP_MENU_SHIFT = 0"
| "top_menu_value TOP_MENU_SAVE = 1"
| "top_menu_value TOP_MENU_RELOAD = 2"
| "top_menu_value TOP_MENU_FLASH = 3"

definition top_menu_of_value :: "c_int \<Rightarrow> top_menu_action_t" where
  "top_menu_of_value v =
     (if v = 0 then TOP_MENU_SHIFT else if v = 1 then TOP_MENU_SAVE
      else if v = 2 then TOP_MENU_RELOAD else TOP_MENU_FLASH)"

definition TOP_MENU_FIRST :: top_menu_action_t where
  "TOP_MENU_FIRST = TOP_MENU_SHIFT"

definition TOP_MENU_LAST :: top_menu_action_t where
  "TOP_MENU_LAST = TOP_MENU_FLASH"

fun edit_value :: "edit_mode_t \<Rightarrow> c_int" where
  "edit_value EDIT_BACK = 0"
| "edit_value EDIT_DURATION = 1"
| "edit_value EDIT_WR_LEVEL = 2"
| "edit_value EDIT_BL_LEVEL = 3"

definition edit_of_value :: "c_int \<Rightarrow> edit_mode_t" where
  "edit_of_value v =
     (if v = 0 then EDIT_BACK else if v = 1 then EDIT_DURATION
      else if v = 2 then EDIT_WR_LEVEL else EDIT_BL_LEVEL)"

definition EDIT_FIRST :: edit_mode_t where
  "EDIT_FIRST = EDIT_BACK"

definition EDIT_LAST :: edit_mode_t where
  "EDIT_LAST = EDIT_BL_LEVEL"

definition app_encoder_show_profile :: "c_int \<Rightarrow> app \<Rightarrow> app" where
  "app_encoder_show_profile delta s =
     (let new_profile = menu_profile_index s + delta in
      if new_profile <s 0 then
        app_redraw (s\<lparr>current_app_mode := MODE_TOP_MENU,
                      current_top_menu_action := TOP_MENU_FIRST\<rparr>)
      else
        (let new_profile = (if word_of_nat MAX_PROFILES \<le>s new_profile then 0 else new_profile);
             s1 = (if new_profile \<noteq> menu_profile_index s
                   then s\<lparr>menu_profile_index := new_profile\<rparr> else s);
             s2 = (if menu_profile_index s1 \<noteq> current_profile s1
                   then s1\<lparr>current_app_mode := MODE_SHOW_PROFILE\<rparr>
                   else s1\<lparr>current_app_mode := MODE_SHOW_STATE\<rparr>)
         in app_redraw s2))"

definition app_encoder_edit_profile :: "c_int \<Rightarrow> app \<Rightarrow> app" where
  "app_encoder_edit_profile delta s =
     (let new_index = current_edit_period_index s + delta;
          new_index = (if new_index <s - 1 then word_of_nat MAX_PERIODS - 1
                       else if word_of_nat MAX_PERIODS \<le>s new_index then - 1
                       else new_index)
      in if new_index \<noteq> current_edit_period_index s
         then app_redraw (s\<lparr>current_edit_period_index := new_index\<rparr>)
         else s)"

text \<open>
  \<^verbatim>\<open>&profiles[current_profile].periods[current_edit_period_index]\<close>, read and written
  through by the three value editors.
\<close>

definition period_ref :: "app \<Rightarrow> period_t option" where
  "period_ref s =
     (case array_at (profiles s) (current_profile s) of
        None \<Rightarrow> None
      | Some profile \<Rightarrow> array_at (periods profile) (current_edit_period_index s))"

definition period_store :: "app \<Rightarrow> period_t \<Rightarrow> app" where
  "period_store s period =
     (let i = nat (sint (current_profile s));
          j = nat (sint (current_edit_period_index s));
          profile = profiles s ! i
      in s\<lparr>profiles := (profiles s)[i := profile\<lparr>periods := (periods profile)[j := period]\<rparr>]\<rparr>)"

definition app_encoder_edit_duration :: "c_int \<Rightarrow> app \<Rightarrow> fault + app" where
  "app_encoder_edit_duration delta s =
     (case period_ref s of
        None \<Rightarrow> Inl Out_Of_Bounds
      | Some period \<Rightarrow>
          (let new_duration = duration period + delta * 60;
               new_duration = (if new_duration <s 0 then 0
                               else if 24 * 60 <s new_duration then 24 * 60
                               else new_duration)
           in if new_duration \<noteq> duration period
              then Inr (app_redraw (period_store s (period\<lparr>duration := new_duration\<rparr>)))
              else Inr s))"

definition app_encoder_edit_period :: "c_int \<Rightarrow> app \<Rightarrow> app" where
  "app_encoder_edit_period delta s =
     (let new_value = edit_value (current_edit_value s) + delta;
          new_value = (if new_value <s edit_value EDIT_FIRST then edit_value EDIT_LAST
                       else if edit_value EDIT_LAST <s new_value then edit_value EDIT_FIRST
                       else new_value)
      in if new_value \<noteq> edit_value (current_edit_value s)
         then app_redraw (s\<lparr>current_edit_value := edit_of_value new_value\<rparr>)
         else s)"

definition app_encoder_edit_white_red_level :: "c_int \<Rightarrow> app \<Rightarrow> fault + app" where
  "app_encoder_edit_white_red_level delta s =
     (case period_ref s of
        None \<Rightarrow> Inl Out_Of_Bounds
      | Some period \<Rightarrow>
          (let new_level = led_white_red_power period + delta * 5;
               new_level = (if new_level <s 0 then 0
                            else if 100 <s new_level then 100
                            else new_level);
               s1 = (if new_level \<noteq> led_white_red_power period
                     then app_redraw (period_store s (period\<lparr>led_white_red_power := new_level\<rparr>))
                     else s);
               s2 = s1\<lparr>current_app_state := (current_app_state s1)\<lparr>white_red := new_level\<rparr>\<rparr>
           in Inr (app_apply_state s2)))"

definition app_encoder_edit_blue_level :: "c_int \<Rightarrow> app \<Rightarrow> fault + app" where
  "app_encoder_edit_blue_level delta s =
     (case period_ref s of
        None \<Rightarrow> Inl Out_Of_Bounds
      | Some period \<Rightarrow>
          (let new_level = led_blue_power period + delta * 5;
               new_level = (if new_level <s 0 then 0
                            else if 100 <s new_level then 100
                            else new_level);
               s1 = (if new_level \<noteq> led_blue_power period
                     then app_redraw (period_store s (period\<lparr>led_blue_power := new_level\<rparr>))
                     else s);
               s2 = s1\<lparr>current_app_state := (current_app_state s1)\<lparr>blue := new_level\<rparr>\<rparr>
           in Inr (app_apply_state s2)))"

definition app_encoder_top_menu :: "c_int \<Rightarrow> app \<Rightarrow> app" where
  "app_encoder_top_menu delta s =
     (let new_action = top_menu_value (current_top_menu_action s) + delta;
          s1 = (if new_action <s top_menu_value TOP_MENU_FIRST then
                  (let s0 = s\<lparr>menu_profile_index := 0\<rparr> in
                   if menu_profile_index s0 \<noteq> current_profile s0
                   then s0\<lparr>current_app_mode := MODE_SHOW_PROFILE\<rparr>
                   else s0\<lparr>current_app_mode := MODE_SHOW_STATE\<rparr>)
                else if top_menu_value TOP_MENU_LAST <s new_action then
                  s\<lparr>current_top_menu_action := TOP_MENU_FIRST\<rparr>
                else s\<lparr>current_top_menu_action := top_menu_of_value new_action\<rparr>)
      in app_redraw s1)"

definition app_encoder_time_shift :: "c_int \<Rightarrow> app \<Rightarrow> app" where
  "app_encoder_time_shift delta s =
     (let new_shift = time_shift_hours s + delta;
          new_shift = (if new_shift <s - 23 then - 23
                       else if 23 <s new_shift then 23
                       else new_shift)
      in if new_shift \<noteq> time_shift_hours s
         then app_redraw (s\<lparr>time_shift_hours := new_shift\<rparr>)
         else s)"

definition app_on_encoder_change :: "uint64_t \<Rightarrow> c_int \<Rightarrow> app \<Rightarrow> fault + app" where
  "app_on_encoder_change now delta s =
     (if delta = 0 then Inr s
      else
        (let s1 = s\<lparr>last_encoder_time := now\<rparr> in
         case current_app_mode s1 of
           MODE_SHOW_PROFILE \<Rightarrow> Inr (app_encoder_show_profile delta s1)
         | MODE_SHOW_STATE \<Rightarrow> Inr (app_encoder_show_profile delta s1)
         | MODE_EDIT_PROFILE \<Rightarrow> Inr (app_encoder_edit_profile delta s1)
         | MODE_EDIT_PERIOD \<Rightarrow> Inr (app_encoder_edit_period delta s1)
         | MODE_EDIT_DURATION \<Rightarrow> app_encoder_edit_duration delta s1
         | MODE_EDIT_WR_LEVEL \<Rightarrow> app_encoder_edit_white_red_level delta s1
         | MODE_EDIT_BL_LEVEL \<Rightarrow> app_encoder_edit_blue_level delta s1
         | MODE_TOP_MENU \<Rightarrow> Inr (app_encoder_top_menu delta s1)
         | MODE_TIME_SHIFT \<Rightarrow> Inr (app_encoder_time_shift delta s1)))"

section \<open>Click handler\<close>

definition app_on_click :: "uint64_t \<Rightarrow> app \<Rightarrow> fault + app" where
  "app_on_click now s =
     (let s1 = s\<lparr>last_encoder_time := now\<rparr> in
      case current_app_mode s1 of
        MODE_SHOW_PROFILE \<Rightarrow>
          (if menu_profile_index s1 \<noteq> current_profile s1 then
             (case app_calculate_state now
                     (s1\<lparr>current_profile := menu_profile_index s1,
                         current_app_mode := MODE_SHOW_STATE\<rparr>) of
                Inl f \<Rightarrow> Inl f
              | Inr (changed, s2) \<Rightarrow> Inr (app_redraw (app_apply_state s2)))
           else Inr (app_redraw s1))
      | MODE_SHOW_STATE \<Rightarrow>
          Inr (app_redraw (s1\<lparr>current_edit_period_index := - 1,
                               current_app_mode := MODE_EDIT_PROFILE\<rparr>))
      | MODE_EDIT_PROFILE \<Rightarrow>
          (if current_edit_period_index s1 = - 1 then
             Inr (app_redraw (s1\<lparr>current_app_mode := MODE_SHOW_STATE\<rparr>))
           else
             (let s2 = s1\<lparr>current_app_mode := MODE_EDIT_PERIOD, current_edit_value := EDIT_BACK\<rparr> in
              case period_ref s2 of
                None \<Rightarrow> Inl Out_Of_Bounds
              | Some period \<Rightarrow>
                  Inr (app_redraw (app_apply_state
                    (s2\<lparr>current_app_state := (current_app_state s2)
                          \<lparr>white_red := led_white_red_power period,
                           blue := led_blue_power period\<rparr>\<rparr>)))))
      | MODE_EDIT_PERIOD \<Rightarrow>
          Inr (app_redraw
            (case current_edit_value s1 of
               EDIT_BACK \<Rightarrow> s1\<lparr>current_app_mode := MODE_EDIT_PROFILE\<rparr>
             | EDIT_WR_LEVEL \<Rightarrow> s1\<lparr>current_app_mode := MODE_EDIT_WR_LEVEL\<rparr>
             | EDIT_BL_LEVEL \<Rightarrow> s1\<lparr>current_app_mode := MODE_EDIT_BL_LEVEL\<rparr>
             | EDIT_DURATION \<Rightarrow> s1\<lparr>current_app_mode := MODE_EDIT_DURATION\<rparr>))
      | MODE_EDIT_DURATION \<Rightarrow> Inr (app_redraw (s1\<lparr>current_app_mode := MODE_EDIT_PERIOD\<rparr>))
      | MODE_EDIT_WR_LEVEL \<Rightarrow> Inr (app_redraw (s1\<lparr>current_app_mode := MODE_EDIT_PERIOD\<rparr>))
      | MODE_EDIT_BL_LEVEL \<Rightarrow> Inr (app_redraw (s1\<lparr>current_app_mode := MODE_EDIT_PERIOD\<rparr>))
      | MODE_TOP_MENU \<Rightarrow>
          (case current_top_menu_action s1 of
             TOP_MENU_SAVE \<Rightarrow> Inr (app_redraw (app_save_profiles s1))
           | TOP_MENU_RELOAD \<Rightarrow> Inr (app_redraw (app_reload_profiles True s1))
           | TOP_MENU_FLASH \<Rightarrow> Inl Bootloader_Entered
           | TOP_MENU_SHIFT \<Rightarrow>
               Inr (app_redraw (s1\<lparr>time_shift_hours := 0, current_app_mode := MODE_TIME_SHIFT\<rparr>)))
      | MODE_TIME_SHIFT \<Rightarrow>
          (let s2 = s1\<lparr>current_app_mode := MODE_TOP_MENU\<rparr> in
           if time_shift_hours s2 \<noteq> 0 then
             (case app_calculate_state now
                     (s2\<lparr>app_start_time := app_start_time s2
                           + scast (time_shift_hours s2) * 60 * 60 * 1000 * 1000\<rparr>) of
                Inl f \<Rightarrow> Inl f
              | Inr (changed, s3) \<Rightarrow> Inr (app_redraw s3))
           else Inr (app_redraw s2)))"

section \<open>Start-up and the event loop\<close>

text \<open>
  The static initialisers, with \<open>sector\<close> the content of the last flash sector at power-on
  and \<open>ps\<close> the factory profiles; then \<^verbatim>\<open>app_init\<close> at time \<open>now\<close>.
\<close>

definition factory_period :: "c_int \<Rightarrow> c_int \<Rightarrow> c_int \<Rightarrow> period_t" where
  "factory_period d wr bl = \<lparr>duration = d, led_white_red_power = wr, led_blue_power = bl\<rparr>"

definition disabled_period :: period_t where
  "disabled_period = factory_period 0 0 0"

definition name16 :: "string \<Rightarrow> uint8_t list" where
  "name16 str = map of_char str @ replicate (16 - length str) 0"

definition factory_profiles :: "profile_t list" where
  "factory_profiles =
     [\<lparr>name = name16 ''VEG'',
       periods = [factory_period (60 * 14) 100 100, factory_period (60 * 10) 0 0,
                  disabled_period, disabled_period, disabled_period, disabled_period]\<rparr>,
      \<lparr>name = name16 ''FLOWER'',
       periods = [factory_period (60 * 12) 100 0, factory_period (60 * 12) 0 0,
                  disabled_period, disabled_period, disabled_period, disabled_period]\<rparr>,
      \<lparr>name = name16 ''FRUIT'',
       periods = [factory_period (60 * 16) 100 0, factory_period (60 * 8) 0 0,
                  disabled_period, disabled_period, disabled_period, disabled_period]\<rparr>,
      \<lparr>name = name16 ''CUSTOM 1'',
       periods = [disabled_period, disabled_period, disabled_period,
                  disabled_period, disabled_period, disabled_period]\<rparr>,
      \<lparr>name = name16 ''CUSTOM 2'',
       periods = [disabled_period, disabled_period, disabled_period,
                  disabled_period, disabled_period, disabled_period]\<rparr>]"

definition static_init :: "uint8_t list \<Rightarrow> app" where
  "static_init sector =
     \<lparr>profiles = factory_profiles,
      current_profile = 0,
      app_start_time = 0,
      app_start_time_without_shift = 0,
      last_encoder_time = 0,
      current_app_state =
        \<lparr>period_index = 0, white_red = - 1, blue = - 1, pump = False,
         pump_minutes_left = 0, period_minutes_left = 0\<rparr>,
      current_app_mode = MODE_SHOW_STATE,
      menu_profile_index = 0,
      current_edit_period_index = 0,
      current_edit_value = EDIT_BACK,
      current_top_menu_action = TOP_MENU_SAVE,
      time_shift_hours = 0,
      flash_buffer = replicate FLASH_SECTOR_SIZE 0,
      flash_sector = sector,
      pin_pump = False,
      percent_white_red = 0,
      percent_blue = 0,
      redraws = 0\<rparr>"

definition app_init :: "uint64_t \<Rightarrow> app \<Rightarrow> fault + app" where
  "app_init now s =
     (let s1 = s\<lparr>current_profile := 0, app_start_time := now\<rparr>;
          s2 = s1\<lparr>app_start_time_without_shift := app_start_time s1\<rparr>;
          s3 = s2\<lparr>percent_blue := 0, percent_white_red := 0\<rparr>
      in app_tick now (app_reload_profiles False s3))"

text \<open>
  The main loop feeds the encoder's step count, the debounced button and the periodic tick
  to the three entry points, each at the time the clock shows then.
\<close>

datatype event = Rotate c_int | Click | Tick

fun step :: "uint64_t \<Rightarrow> event \<Rightarrow> app \<Rightarrow> fault + app" where
  "step now (Rotate delta) s = app_on_encoder_change now delta s"
| "step now Click s = app_on_click now s"
| "step now Tick s = app_tick now s"

inductive reachable :: "app \<Rightarrow> bool" where
  reachable_init:
    "length sector = FLASH_SECTOR_SIZE \<Longrightarrow> app_init now (static_init sector) = Inr s
       \<Longrightarrow> reachable s"
| reachable_step:
    "reachable s \<Longrightarrow> step now e s = Inr s' \<Longrightarrow> reachable s'"

text \<open>A run of the loop over a list of timed events, stopping at the first fault.\<close>

fun run_events :: "(uint64_t \<times> event) list \<Rightarrow> app \<Rightarrow> fault + app" where
  "run_events [] s = Inr s"
| "run_events ((now, e) # es) s =
     (case step now e s of Inl f \<Rightarrow> Inl f | Inr s' \<Rightarrow> run_events es s')"

text \<open>A device whose last flash sector is erased (all bytes \<open>0xFF\<close>), before \<^verbatim>\<open>app_init\<close>.\<close>

definition erased_sector :: "uint8_t list" where
  "erased_sector = replicate FLASH_SECTOR_SIZE 0xFF"

definition power_on :: app where
  "power_on = static_init erased_sector"

definition boot_and_run :: "uint64_t \<Rightarrow> (uint64_t \<times> event) list \<Rightarrow> fault + app" where
  "boot_and_run now es =
     (case app_init now power_on of Inl f \<Rightarrow> Inl f | Inr s \<Rightarrow> run_events es s)"

text \<open>
  The state \<^verbatim>\<open>app_init\<close> leaves at time 0 on such a device: the first factory profile is
  active, its first period is lit and the pump has started its first run.
\<close>

definition booted :: app where
  "booted =
     power_on\<lparr>current_app_state :=
                \<lparr>period_index = 0, white_red = 100, blue = 100, pump = True,
                 pump_minutes_left = 5, period_minutes_left = 840\<rparr>,
              pin_pump := True, percent_white_red := 100, percent_blue := 100,
              redraws := 1\<rparr>"

text \<open>The same device after the fourth factory profile, whose six slots are disabled, was selected.\<close>

definition custom1_selected :: app where
  "custom1_selected = booted\<lparr>current_profile := 3\<rparr>"

text \<open>
  The scenario of the specification: periods \<open>480@(100,50)\<close> and \<open>960@(0,0)\<close>, the other
  four slots disabled, as the active profile of the booted device.
\<close>

definition scenario_profile :: profile_t where
  "scenario_profile =
     \<lparr>name = name16 ''SCENARIO'',
      periods = [factory_period 480 100 50, factory_period 960 0 0,
                 disabled_period, disabled_period, disabled_period, disabled_period]\<rparr>"

definition scenario_state :: app where
  "scenario_state = booted\<lparr>profiles := (profiles booted)[0 := scenario_profile]\<rparr>"

text \<open>
  A freshly started device whose sector holds what \<^verbatim>\<open>app_save_profiles\<close> wrote on the device
  above, a sector with the marker and the stored index 7, and the booted device with the
  top menu on RELOAD.
\<close>

definition restarted_after_save :: app where
  "restarted_after_save = power_on\<lparr>flash_sector := flash_sector (app_save_profiles custom1_selected)\<rparr>"

definition index7_sector :: "uint8_t list" where
  "index7_sector = [0xA5, 0x5A, 0xA5, 0x5A] @ le32 7 @ replicate (FLASH_SECTOR_SIZE - 8) 0"

definition top_menu_reload :: app where
  "top_menu_reload =
     booted\<lparr>current_app_mode := MODE_TOP_MENU, current_top_menu_action := TOP_MENU_RELOAD\<rparr>"

section \<open>Invariants of the navigation state machine\<close>

text \<open>
  The period index is \<open>-1\<close> (the BACK row) or a slot, and a slot in the four modes that read
  the period; the profile arrays have their fixed sizes and the two profile indices are in
  range. The last definition is the device after five inputs that lead into the duration
  editor of the first period.
\<close>

definition edit_index_inv :: "app \<Rightarrow> bool" where
  "edit_index_inv s \<longleftrightarrow>
     - 1 \<le>s current_edit_period_index s \<and> current_edit_period_index s \<le>s 5
     \<and> (current_app_mode s \<in> {MODE_EDIT_PERIOD, MODE_EDIT_DURATION, MODE_EDIT_WR_LEVEL,
                                MODE_EDIT_BL_LEVEL}
          \<longrightarrow> 0 \<le>s current_edit_period_index s)"

definition shape_inv :: "app \<Rightarrow> bool" where
  "shape_inv s \<longleftrightarrow>
     length (profiles s) = MAX_PROFILES
     \<and> list_all (\<lambda>p. length (periods p) = MAX_PERIODS) (profiles s)
     \<and> 0 \<le>s current_profile s \<and> current_profile s <s 5
     \<and> 0 \<le>s menu_profile_index s \<and> menu_profile_index s <s 5"

definition nav_inv :: "app \<Rightarrow> bool" where
  "nav_inv s \<longleftrightarrow> edit_index_inv s \<and> shape_inv s"

definition editing_duration :: app where
  "editing_duration =
     projr (boot_and_run 0
       [(1000000, Click), (2000000, Rotate 1), (3000000, Click), (4000000, Rotate 1),
        (5000000, Click)])"

section \<open>What a rotation leaves unchanged\<close>

text \<open>
  Two states agree on the navigation state and on the profiles; and the device after the
  click that opens the profile editor, with the BACK row selected.
\<close>

definition same_navigation_and_profiles :: "app \<Rightarrow> app \<Rightarrow> bool" where
  "same_navigation_and_profiles s s' \<longleftrightarrow>
     profiles s' = profiles s
     \<and> current_profile s' = current_profile s
     \<and> current_app_mode s' = current_app_mode s
     \<and> menu_profile_index s' = menu_profile_index s
     \<and> current_edit_period_index s' = current_edit_period_index s
     \<and> current_edit_value s' = current_edit_value s
     \<and> current_top_menu_action s' = current_top_menu_action s
     \<and> time_shift_hours s' = time_shift_hours s"

definition on_back_row :: app where
  "on_back_row = booted\<lparr>last_encoder_time := 1000000, current_edit_period_index := - 1,
                        current_app_mode := MODE_EDIT_PROFILE, redraws := 2\<rparr>"

section \<open>A time shift larger than the uptime\<close>

text \<open>
  The erased device boots at time 0; one step back opens the top menu on its first entry,
  the click opens the time-shift editor, five steps set \<open>+5\<close> hours and the click at second 4
  applies them.
\<close>

definition shifted_ahead :: "fault + app" where
  "shifted_ahead =
     boot_and_run 0
       [(1000000, Rotate (- 1)), (2000000, Click), (3000000, Rotate 5), (4000000, Click)]"

section \<open>Evaluation at concrete inputs\<close>

lemmas engine_defs =
  calculate_state_def pump_block_def minutes_of_us_def Let_def
  PUMP_TOTAL_MINUTES_def PUMP_RUN_MINUTES_def PUMP_WAIT_MINUTES_def
  MAX_PERIODS_def MAX_PROFILES_def array_at_def app_calculate_state_def

lemmas factory_defs =
  factory_profiles_def factory_period_def disabled_period_def

lemmas handler_defs =
  app_tick_def app_redraw_def app_apply_state_def app_on_encoder_change_def app_on_click_def
  app_encoder_show_profile_def app_encoder_edit_profile_def app_encoder_edit_period_def
  app_encoder_edit_duration_def app_encoder_top_menu_def period_ref_def period_store_def
  TOP_MENU_FIRST_def TOP_MENU_LAST_def EDIT_FIRST_def EDIT_LAST_def
  edit_of_value_def top_menu_of_value_def

lemma erased_sector_no_magic: "\<not> magic_ok erased_sector"
  by (simp add: magic_ok_def erased_sector_def FLASH_SECTOR_SIZE_def)

section \<open>The pump block\<close>

lemma pump_block_pump:
  "pump (snd (pump_block m st)) \<longleftrightarrow> m mod PUMP_TOTAL_MINUTES < PUMP_RUN_MINUTES"
  by (simp add: pump_block_def Let_def)

lemma pump_block_left:
  "pump_minutes_left (snd (pump_block m st)) =
     (if m mod PUMP_TOTAL_MINUTES < PUMP_RUN_MINUTES
      then PUMP_RUN_MINUTES - m mod PUMP_TOTAL_MINUTES
      else PUMP_TOTAL_MINUTES - m mod PUMP_TOTAL_MINUTES)"
  by (simp add: pump_block_def Let_def)

lemma pump_block_lights:
  "white_red (snd (pump_block m st)) = white_red st"
  "blue (snd (pump_block m st)) = blue st"
  "period_index (snd (pump_block m st)) = period_index st"
  "period_minutes_left (snd (pump_block m st)) = period_minutes_left st"
  by (simp_all add: pump_block_def Let_def)

lemma pump_block_settled:
  assumes "pump st \<longleftrightarrow> m mod PUMP_TOTAL_MINUTES < PUMP_RUN_MINUTES"
    and "pump_minutes_left st =
           (if m mod PUMP_TOTAL_MINUTES < PUMP_RUN_MINUTES
            then PUMP_RUN_MINUTES - m mod PUMP_TOTAL_MINUTES
            else PUMP_TOTAL_MINUTES - m mod PUMP_TOTAL_MINUTES)"
  shows "pump_block m st = (False, st)"
  using assms by (simp add: pump_block_def Let_def)

section \<open>The engine on one profile\<close>

lemma calculate_state_zero_total:
  assumes "sum_durations (periods profile) 0 = 0"
  shows "calculate_state now start start0 profile st =
           (white_red st \<noteq> 0 \<or> blue st \<noteq> 0, st\<lparr>white_red := 0, blue := 0\<rparr>)"
proof (cases "white_red st \<noteq> 0 \<or> blue st \<noteq> 0")
  case True
  with assms show ?thesis by (simp add: calculate_state_def)
next
  case False
  then have "st\<lparr>white_red := 0, blue := 0\<rparr> = st" by simp
  with False assms show ?thesis by (simp add: calculate_state_def)
qed

lemma calculate_state_lit:
  assumes "sum_durations (periods profile) 0 \<noteq> 0"
  shows "snd (calculate_state now start start0 profile st) =
           light_write (find_period (periods profile) 0 (cycle_position now start profile) 0)
             (snd (pump_block (minutes_of_us (now - start0)) st))"
proof -
  obtain ret st1 where pb: "pump_block (minutes_of_us (now - start0)) st = (ret, st1)"
    by (cases "pump_block (minutes_of_us (now - start0)) st")
  show ?thesis
  proof (cases "find_period (periods profile) 0 (cycle_position now start profile) 0")
    case None
    have "white_red st1 = 0 \<Longrightarrow> blue st1 = 0 \<Longrightarrow> period_minutes_left st1 = 0
            \<Longrightarrow> st1\<lparr>white_red := 0, blue := 0, period_minutes_left := 0\<rparr> = st1"
      by simp
    with assms pb None show ?thesis
      by (simp add: calculate_state_def Let_def cycle_position_def [symmetric] light_write_def)
  next
    case (Some r)
    obtain i period left where r: "r = (i, period, left)" by (cases r)
    have "white_red st1 = led_white_red_power period \<Longrightarrow> blue st1 = led_blue_power period
            \<Longrightarrow> period_minutes_left st1 = left \<Longrightarrow> period_index st1 = i
            \<Longrightarrow> st1\<lparr>white_red := led_white_red_power period, blue := led_blue_power period,
                    period_minutes_left := left, period_index := i\<rparr> = st1"
      by simp
    with assms pb Some r show ?thesis
      by (simp add: calculate_state_def Let_def cycle_position_def [symmetric] light_write_def)
  qed
qed

lemma light_write_pump:
  "pump (light_write found st) = pump st"
  "pump_minutes_left (light_write found st) = pump_minutes_left st"
  by (simp_all add: light_write_def split: option.splits)

text \<open>
  With a non-zero total the pump fields follow the 35-minute cadence of the unshifted
  start time, whatever the profile and the shifted start time are.
\<close>

lemma calculate_state_pump_when_lit:
  assumes "sum_durations (periods profile) 0 \<noteq> 0"
  shows "pump (snd (calculate_state now start start0 profile st))
           \<longleftrightarrow> minutes_of_us (now - start0) mod PUMP_TOTAL_MINUTES < PUMP_RUN_MINUTES"
    and "pump_minutes_left (snd (calculate_state now start start0 profile st)) =
           (if minutes_of_us (now - start0) mod PUMP_TOTAL_MINUTES < PUMP_RUN_MINUTES
            then PUMP_RUN_MINUTES - minutes_of_us (now - start0) mod PUMP_TOTAL_MINUTES
            else PUMP_TOTAL_MINUTES - minutes_of_us (now - start0) mod PUMP_TOTAL_MINUTES)"
  using assms by (simp_all add: calculate_state_lit light_write_pump pump_block_pump pump_block_left)

lemma calculate_state_settled:
  "calculate_state now start start0 profile
     (snd (calculate_state now start start0 profile st))
   = (False, snd (calculate_state now start start0 profile st))"
proof (cases "sum_durations (periods profile) 0 = 0")
  case True
  then show ?thesis by (simp add: calculate_state_zero_total)
next
  case False
  define found where "found = find_period (periods profile) 0 (cycle_position now start profile) 0"
  define st1 where "st1 = snd (pump_block (minutes_of_us (now - start0)) st)"
  define st2 where "st2 = light_write found st1"
  have r1: "snd (calculate_state now start start0 profile st) = st2"
    using False by (simp add: calculate_state_lit st2_def found_def st1_def)
  have "pump_block (minutes_of_us (now - start0)) st2 = (False, st2)"
    by (rule pump_block_settled)
      (simp_all add: st2_def st1_def light_write_pump pump_block_pump pump_block_left)
  then have "calculate_state now start start0 profile st2 = (False, st2)"
    using False
    by (cases found)
      (auto simp add: calculate_state_def Let_def cycle_position_def [symmetric]
        found_def [symmetric] st2_def light_write_def)
  then show ?thesis by (simp add: r1)
qed

section \<open>The walk over the periods\<close>

lemma sint_nonneg_unat:
  fixes w :: "32 word"
  assumes "0 \<le> sint w"
  shows "int (unat w) = sint w"
proof -
  have "sint w < 2 ^ 32" using sint_less [of w] by simp
  with assms have "take_bit 32 (sint w) = sint w"
    by (simp only: take_bit_int_eq_self)
  moreover have "uint w = take_bit 32 (sint w)"
    using uint_sint [of w] by simp
  ultimately show ?thesis by simp
qed

lemma unat_small_sint:
  fixes w :: "32 word"
  assumes "unat w < 2 ^ 31"
  shows "sint w = int (unat w)"
proof -
  have "sint w = signed_take_bit 31 (uint w)" using sint_uint [of w] by simp
  moreover have "signed_take_bit 31 (uint w) = uint w"
  proof (rule signed_take_bit_int_eq_self)
    show "- (2 ^ 31) \<le> uint w" by (rule order_trans [of _ 0]) simp_all
    have "int (unat w) < 2 ^ 31"
      using assms by (simp add: of_nat_less_iff [where 'a = int, symmetric] del: of_nat_less_iff)
    then show "uint w < 2 ^ 31" by simp
  qed
  ultimately show ?thesis by simp
qed

lemma valid_duration_unat:
  fixes d :: "32 word"
  assumes "0 \<le>s d" "d \<le>s 24 * 60"
  shows "unat d \<le> 1440"
proof -
  from assms have "0 \<le> sint d" "sint d \<le> 1440" by (simp_all add: word_sle_eq)
  with sint_nonneg_unat [of d] show ?thesis by linarith
qed

lemma light_total_take_mono: "a \<le> b \<Longrightarrow> light_total (take a ps) \<le> light_total (take b ps)"
  unfolding light_total_def
proof (induction ps arbitrary: a b)
  case Nil
  then show ?case by simp
next
  case (Cons p ps)
  then show ?case by (cases a; cases b) (simp_all add: trans_le_add2)
qed

lemma light_total_le:
  "list_all (\<lambda>q. 0 \<le>s duration q \<and> duration q \<le>s 24 * 60) ps
     \<Longrightarrow> light_total ps \<le> 1440 * length ps"
proof (induction ps)
  case Nil
  then show ?case by (simp add: light_total_def)
next
  case (Cons p ps)
  then have "unat (duration p) \<le> 1440" "light_total ps \<le> 1440 * length ps"
    by (simp_all add: valid_duration_unat)
  then show ?case by (simp add: light_total_def)
qed

lemma light_total_bound:
  assumes "wf_profile p" "valid_durations p"
  shows "light_total (periods p) \<le> 8640"
  using light_total_le [of "periods p"] assms
  by (simp add: wf_profile_def valid_durations_def MAX_PERIODS_def)

lemma sum_durations_unat:
  "unat acc + light_total ps < 2 ^ 32 \<Longrightarrow> unat (sum_durations ps acc) = unat acc + light_total ps"
proof (induction ps arbitrary: acc)
  case Nil
  then show ?case by (simp add: light_total_def)
next
  case (Cons p ps)
  from Cons.prems have "unat acc + unat (duration p) < 2 ^ LENGTH(32)"
    by (simp add: light_total_def)
  then have u: "unat (acc + duration p) = unat acc + unat (duration p)"
    by (simp only: unat_add_lem)
  with Cons.prems have "unat (acc + duration p) + light_total ps < 2 ^ 32"
    by (simp add: light_total_def)
  from Cons.IH [OF this] u show ?case by (simp add: light_total_def)
qed

lemma sum_durations_light_total:
  assumes "wf_profile p" "valid_durations p"
  shows "unat (sum_durations (periods p) 0) = light_total (periods p)"
  using sum_durations_unat [of 0 "periods p"] light_total_bound [OF assms] by simp

lemma find_period_window:
  assumes "unat e + light_total ps < 2 ^ 32"
    and "unat e \<le> unat m"
    and "unat m < unat e + light_total ps"
  shows "\<exists>j left. j < length ps
           \<and> find_period ps i m e = Some (i + word_of_nat j, ps ! j, left)
           \<and> duration (ps ! j) \<noteq> 0
           \<and> unat e + window_start ps j \<le> unat m
           \<and> unat m < unat e + window_end ps j
           \<and> unat left = unat e + window_end ps j - unat m"
  using assms
proof (induction ps arbitrary: i e)
  case Nil
  then show ?case by (simp add: light_total_def)
next
  case (Cons p ps)
  show ?case
  proof (cases "duration p = 0")
    case True
    with Cons.prems have "unat e + light_total ps < 2 ^ 32" "unat m < unat e + light_total ps"
      by (simp_all add: light_total_def)
    from Cons.IH [OF this(1) Cons.prems(2) this(2), of "i + 1"]
    obtain j left where j: "j < length ps"
      "find_period ps (i + 1) m e = Some (i + 1 + word_of_nat j, ps ! j, left)"
      "duration (ps ! j) \<noteq> 0"
      "unat e + window_start ps j \<le> unat m"
      "unat m < unat e + window_end ps j"
      "unat left = unat e + window_end ps j - unat m"
      by blast
    show ?thesis
      apply (rule exI [of _ "Suc j"], rule exI [of _ left])
      using j True by (simp add: add.assoc window_start_def window_end_def light_total_def)
  next
    case False
    from Cons.prems have "unat e + unat (duration p) < 2 ^ LENGTH(32)"
      by (simp add: light_total_def)
    then have u: "unat (e + duration p) = unat e + unat (duration p)"
      by (simp only: unat_add_lem)
    show ?thesis
    proof (cases "m < e + duration p")
      case True
      then have lt: "unat m < unat e + unat (duration p)"
        by (simp add: word_less_nat_alt u)
      from True have "m \<le> e + duration p" by simp
      then have "unat (e + duration p - m) = unat (e + duration p) - unat m"
        by (rule unat_sub)
      with u have left: "unat (e + duration p - m) = unat e + unat (duration p) - unat m"
        by simp
      show ?thesis
        apply (rule exI [of _ 0], rule exI [of _ "e + duration p - m"])
        using False True lt left Cons.prems(2)
        by (simp add: window_start_def window_end_def light_total_def)
    next
      case nlt: False
      then have ge: "unat (e + duration p) \<le> unat m"
        by (simp add: word_less_nat_alt)
      from Cons.prems u have a: "unat (e + duration p) + light_total ps < 2 ^ 32"
        "unat m < unat (e + duration p) + light_total ps"
        by (simp_all add: light_total_def)
      from Cons.IH [OF a(1) ge a(2), of "i + 1"]
      obtain j left where j: "j < length ps"
        "find_period ps (i + 1) m (e + duration p) = Some (i + 1 + word_of_nat j, ps ! j, left)"
        "duration (ps ! j) \<noteq> 0"
        "unat (e + duration p) + window_start ps j \<le> unat m"
        "unat m < unat (e + duration p) + window_end ps j"
        "unat left = unat (e + duration p) + window_end ps j - unat m"
        by blast
      show ?thesis
        apply (rule exI [of _ "Suc j"], rule exI [of _ left])
        using j False nlt u
        by (simp add: add.assoc window_start_def window_end_def light_total_def)
    qed
  qed
qed

lemma spec_active_period_eq:
  assumes "j < length ps" "duration (ps ! j) \<noteq> 0" "window_start ps j \<le> m" "m < window_end ps j"
  shows "spec_active_period ps m = Some j"
proof -
  have "\<not> m < window_end ps k" if "k < j" for k
  proof -
    from that have "window_end ps k \<le> window_start ps j"
      unfolding window_end_def window_start_def by (intro light_total_take_mono) simp
    with assms(3) show ?thesis by simp
  qed
  with assms show ?thesis
    unfolding spec_active_period_def find_Some_iff
    by (intro exI [of _ j]) simp
qed

lemma cycle_position_unat:
  assumes "wf_profile p" "valid_durations p" "0 < light_total (periods p)"
  shows "unat (cycle_position now start p)
           = unat (minutes_of_us (now - start)) mod light_total (periods p)"
proof (cases "sum_durations (periods p) 0 \<le> minutes_of_us (now - start)")
  case True
  then show ?thesis
    by (simp add: cycle_position_def unat_mod sum_durations_light_total [OF assms(1,2)])
next
  case False
  then have "minutes_of_us (now - start) mod sum_durations (periods p) 0
               = minutes_of_us (now - start)"
    by (intro mod_word_less) simp
  then have "unat (minutes_of_us (now - start))
               = unat (minutes_of_us (now - start)) mod light_total (periods p)"
    by (metis unat_mod sum_durations_light_total [OF assms(1,2)])
  with False show ?thesis by (simp add: cycle_position_def)
qed

text \<open>
  What the second loop finds on a profile with valid durations and a positive total, in
  terms of the windows of the specification.
\<close>

lemma engine_selects:
  assumes "wf_profile p" "valid_durations p" "0 < light_total (periods p)"
  shows "\<exists>j left. j < MAX_PERIODS
           \<and> find_period (periods p) 0 (cycle_position now start p) 0
               = Some (word_of_nat j, periods p ! j, left)
           \<and> duration (periods p ! j) \<noteq> 0
           \<and> window_start (periods p) j \<le> unat (cycle_position now start p)
           \<and> unat (cycle_position now start p) < window_end (periods p) j
           \<and> unat left = window_end (periods p) j - unat (cycle_position now start p)"
proof -
  have b: "light_total (periods p) \<le> 8640" by (rule light_total_bound [OF assms(1,2)])
  have "unat (cycle_position now start p) < light_total (periods p)"
    using assms(3) by (simp add: cycle_position_unat [OF assms])
  with find_period_window [of 0 "periods p" "cycle_position now start p" 0] b assms(1)
  show ?thesis by (simp add: wf_profile_def)
qed

lemma app_calculate_state_Inr:
  assumes "array_at (profiles s) (current_profile s) = Some profile"
  shows "app_calculate_state now s =
           Inr (fst (calculate_state now (app_start_time s) (app_start_time_without_shift s)
                       profile (current_app_state s)),
                s\<lparr>current_app_state :=
                    snd (calculate_state now (app_start_time s) (app_start_time_without_shift s)
                           profile (current_app_state s))\<rparr>)"
  using assms by (simp add: app_calculate_state_def split: prod.splits)

lemma app_init_power_on: "app_init 0 power_on = Inr booted"
  by (simp add: booted_def power_on_def app_init_def static_init_def app_reload_profiles_def
      erased_sector_no_magic app_tick_def engine_defs factory_defs app_redraw_def
      app_apply_state_def word_sle_eq)

lemma light_total_pos_sum:
  assumes "wf_profile p" "valid_durations p" "0 < light_total (periods p)"
  shows "sum_durations (periods p) 0 \<noteq> 0"
  using sum_durations_light_total [OF assms(1,2)] assms(3) by auto

lemma valid_nonzero_positive:
  fixes d :: "32 word"
  assumes "0 \<le>s d" "d \<noteq> 0"
  shows "0 <s d"
proof -
  from assms(1) have "0 \<le> sint d" by (simp add: word_sle_eq)
  moreover from assms(2) have "sint d \<noteq> 0" by (simp add: signed_eq_0_iff)
  ultimately show ?thesis by (simp add: word_sless_alt)
qed

lemma scenario_facts:
  "array_at (profiles scenario_state) (current_profile scenario_state) = Some scenario_profile"
  "wf_profile scenario_profile"
  "valid_durations scenario_profile"
  "light_total (periods scenario_profile) = 1440"
  by (simp_all add: scenario_state_def booted_def power_on_def static_init_def array_at_def
      factory_defs scenario_profile_def wf_profile_def valid_durations_def light_total_def
      name16_def MAX_PERIODS_def word_sle_eq)

lemma scenario_eval:
  "app_calculate_state 30000000000 scenario_state =
       Inr (True, scenario_state\<lparr>current_app_state :=
              \<lparr>period_index = 1, white_red = 0, blue = 0, pump = False,
               pump_minutes_left = 25, period_minutes_left = 940\<rparr>\<rparr>)"
    by (simp add: scenario_state_def booted_def power_on_def static_init_def engine_defs
        factory_defs scenario_profile_def word_sle_eq)

lemma scenario_spec: "spec_active_period (periods scenario_profile) 500 = Some 1"
  by (simp add: spec_active_period_def scenario_profile_def factory_defs window_start_def window_end_def light_total_def upt_rec)

section \<open>Properties of the schedule engine\<close>

text \<open>
  C8. Calling the engine a second time at the same instant, on the state the first call
  left and with the profiles untouched, returns \<open>false\<close> and changes nothing.
\<close>

theorem evaluate_twice_unchanged:
  assumes "app_calculate_state now s = Inr (changed, s')"
  shows "app_calculate_state now s' = Inr (False, s')"
proof -
  from assms obtain profile where p: "array_at (profiles s) (current_profile s) = Some profile"
    by (auto simp: app_calculate_state_def split: option.splits)
  define st' where "st' = snd (calculate_state now (app_start_time s)
                                  (app_start_time_without_shift s) profile (current_app_state s))"
  from assms have s': "s' = s\<lparr>current_app_state := st'\<rparr>"
    by (simp add: app_calculate_state_Inr [OF p] st'_def)
  have "array_at (profiles s') (current_profile s') = Some profile"
    using p by (simp add: s')
  from app_calculate_state_Inr [OF this, of now]
  show ?thesis
    by (simp add: s' st'_def calculate_state_settled)
qed

theorem evaluate_twice_unchanged_witness:
  "app_calculate_state 0 power_on =
     Inr (True, power_on\<lparr>current_app_state := current_app_state booted\<rparr>)
   \<and> app_calculate_state 0 (power_on\<lparr>current_app_state := current_app_state booted\<rparr>) =
     Inr (False, power_on\<lparr>current_app_state := current_app_state booted\<rparr>)"
proof -
  have "app_calculate_state 0 power_on =
          Inr (True, power_on\<lparr>current_app_state := current_app_state booted\<rparr>)"
    by (simp add: booted_def power_on_def static_init_def engine_defs factory_defs word_sle_eq)
  with evaluate_twice_unchanged [OF this] show ?thesis by simp
qed

text \<open>
  C3, as amended. When the durations of the active profile sum to 0, the engine returns
  with white-red power 0 and blue power 0, and the flag it returns is true exactly when
  the previous white-red or blue power was not 0. (Nothing is said about the pump.)
\<close>

theorem zero_total_lights_off:
  assumes "array_at (profiles s) (current_profile s) = Some profile"
    and "sum_durations (periods profile) 0 = 0"
  shows "\<exists>s'. app_calculate_state now s =
                 Inr (white_red (current_app_state s) \<noteq> 0 \<or> blue (current_app_state s) \<noteq> 0, s')
               \<and> white_red (current_app_state s') = 0 \<and> blue (current_app_state s') = 0"
  using assms by (simp add: app_calculate_state_Inr calculate_state_zero_total)

lemma custom1_selected_profile:
  "array_at (profiles custom1_selected) (current_profile custom1_selected)
     = Some (factory_profiles ! 3)"
  "sum_durations (periods (factory_profiles ! 3)) 0 = 0"
  by (simp_all add: custom1_selected_def booted_def power_on_def static_init_def array_at_def
      factory_defs word_sle_eq)

theorem zero_total_lights_off_witness:
  "\<exists>s'. app_calculate_state 0 custom1_selected = Inr (True, s')
         \<and> white_red (current_app_state s') = 0 \<and> blue (current_app_state s') = 0"
  using zero_total_lights_off [OF custom1_selected_profile, of 0]
  by (simp add: custom1_selected_def booted_def)

text \<open>
  C3 as stated also promises the pump off. On the all-disabled profile the engine returns
  before the pump block: a pump that was running is still running afterwards.
\<close>

theorem zero_total_pump_counterexample:
  "sum_durations (periods (factory_profiles ! 3)) 0 = 0
   \<and> array_at (profiles custom1_selected) (current_profile custom1_selected)
       = Some (factory_profiles ! 3)
   \<and> app_calculate_state 0 custom1_selected =
       Inr (True, custom1_selected\<lparr>current_app_state :=
                    (current_app_state custom1_selected)\<lparr>white_red := 0, blue := 0\<rparr>\<rparr>)
   \<and> pump ((current_app_state custom1_selected)\<lparr>white_red := 0, blue := 0\<rparr>)"
  by (simp add: custom1_selected_profile app_calculate_state_Inr calculate_state_zero_total)
    (simp add: custom1_selected_def booted_def)

text \<open>
  C1, at a failing input. An erased device boots at time 0 (the pump starts its 5-minute
  run), the user turns the encoder three steps and clicks, which makes the all-disabled
  fourth factory profile active, and the tick runs ten minutes after boot. Minute 10 of the
  35-minute cycle is in the wait phase, yet the pump is still on with 5 minutes left: the
  engine returned at the zero-total test, before the pump block.
\<close>

theorem pump_stale_on_disabled_profile:
  "\<not> isl (boot_and_run 0 [(1000000, Rotate 3), (2000000, Click), (600000000, Tick)])
   \<and> current_profile
        (projr (boot_and_run 0 [(1000000, Rotate 3), (2000000, Click), (600000000, Tick)])) = 3
   \<and> minutes_of_us (600000000 - 0) mod PUMP_TOTAL_MINUTES = 10
   \<and> \<not> (10 < PUMP_RUN_MINUTES)
   \<and> pump (current_app_state
        (projr (boot_and_run 0 [(1000000, Rotate 3), (2000000, Click), (600000000, Tick)])))
   \<and> pump_minutes_left (current_app_state
        (projr (boot_and_run 0 [(1000000, Rotate 3), (2000000, Click), (600000000, Tick)]))) = 5"
  by (simp add: boot_and_run_def app_init_power_on)
    (simp add: booted_def power_on_def static_init_def engine_defs factory_defs handler_defs
      word_sle_eq word_sless_alt)

text \<open>
  The walk itself: on a profile with valid durations and a positive light total the engine
  selects the first slot, in array order and skipping zero durations, whose cumulative
  window contains the position it computed (its own 32-bit minute count modulo the light
  total); it writes that slot's index and its two powers, and the minutes left are the end
  of the window minus that position.
\<close>

lemma engine_selects_window:
  assumes "array_at (profiles s) (current_profile s) = Some profile"
    and "wf_profile profile" and "valid_durations profile"
    and "0 < light_total (periods profile)"
  shows "\<exists>i changed s'.
      spec_active_period (periods profile)
        (unat (minutes_of_us (now - app_start_time s)) mod light_total (periods profile)) = Some i
    \<and> app_calculate_state now s = Inr (changed, s')
    \<and> period_index (current_app_state s') = word_of_nat i
    \<and> white_red (current_app_state s') = led_white_red_power (periods profile ! i)
    \<and> blue (current_app_state s') = led_blue_power (periods profile ! i)
    \<and> sint (period_minutes_left (current_app_state s'))
        = int (window_end (periods profile) i)
          - int (unat (minutes_of_us (now - app_start_time s)) mod light_total (periods profile))"
proof -
  define m where "m = unat (minutes_of_us (now - app_start_time s)) mod light_total (periods profile)"
  have pos: "unat (cycle_position now (app_start_time s) profile) = m"
    by (simp add: m_def cycle_position_unat [OF assms(2-4)])
  from engine_selects [OF assms(2-4), of now "app_start_time s"]
  obtain j left where j: "j < MAX_PERIODS"
    "find_period (periods profile) 0 (cycle_position now (app_start_time s) profile) 0
       = Some (word_of_nat j, periods profile ! j, left)"
    "duration (periods profile ! j) \<noteq> 0"
    "window_start (periods profile) j \<le> m" "m < window_end (periods profile) j"
    "unat left = window_end (periods profile) j - m"
    unfolding pos by blast
  have "window_end (periods profile) j \<le> light_total (periods profile)"
    using light_total_take_mono [of "Suc j" "length (periods profile)" "periods profile"] j(1) assms(2)
    by (simp add: window_end_def wf_profile_def)
  with light_total_bound [OF assms(2,3)] j(6) have "unat left < 2 ^ 31" by simp
  then have left: "sint left = int (window_end (periods profile) j) - int m"
    using j(5,6) by (simp add: unat_small_sint)
  have spec: "spec_active_period (periods profile) m = Some j"
    using j assms(2) by (intro spec_active_period_eq) (simp_all add: wf_profile_def)
  define st' where "st' = snd (calculate_state now (app_start_time s)
                                  (app_start_time_without_shift s) profile (current_app_state s))"
  have st': "st' = light_write (Some (word_of_nat j, periods profile ! j, left))
                     (snd (pump_block (minutes_of_us (now - app_start_time_without_shift s))
                        (current_app_state s)))"
    unfolding st'_def
    by (simp add: calculate_state_lit [OF light_total_pos_sum [OF assms(2-4)]] j(2))
  show ?thesis
    apply (rule exI [of _ j])
    apply (rule exI [of _ "fst (calculate_state now (app_start_time s)
                                  (app_start_time_without_shift s) profile (current_app_state s))"])
    apply (rule exI [of _ "s\<lparr>current_app_state := st'\<rparr>"])
    using spec left
    by (simp add: app_calculate_state_Inr [OF assms(1)] m_def [symmetric] st'_def [symmetric])
      (simp add: st' light_write_def)
qed

text \<open>
  The minute count is the elapsed time whenever the shifted start is not later than the
  clock (the start is given as an integer, which a shift back may make negative) and the
  minutes fit 32 bits.
\<close>

lemma minutes_of_us_elapsed:
  fixes start_real :: int
  assumes "0 \<le> uint now - start_real"
    and "(uint now - start_real) div 1000000 div 60 < 2 ^ 32"
  shows "uint (minutes_of_us (now - word_of_int start_real))
           = (uint now - start_real) div 1000000 div 60"
proof -
  define e where "e = uint now - start_real"
  have e64: "e < 2 ^ 64"
  proof (rule ccontr)
    assume "\<not> e < 2 ^ 64"
    then have "2 ^ 64 div 1000000 div 60 \<le> e div 1000000 div 60"
      by (intro zdiv_mono1) simp_all
    with assms(2) show False by (simp add: e_def)
  qed
  have "now - word_of_int start_real = (word_of_int e :: 64 word)"
    by (simp add: e_def)
  then have "uint (now - word_of_int start_real) = e"
    using assms(1) e64 by (simp add: e_def [symmetric] uint_word_of_int take_bit_int_eq_self)
  then have "uint ((now - word_of_int start_real) div 1000000 div 60) = e div 1000000 div 60"
    by (simp add: uint_div)
  moreover have "0 \<le> e div 1000000 div 60"
    using assms(1) by (simp add: e_def [symmetric] pos_imp_zdiv_nonneg_iff)
  ultimately show ?thesis
    using assms(2)
    by (simp add: minutes_of_us_def e_def [symmetric] unsigned_ucast_eq take_bit_int_eq_self)
qed

text \<open>
  So for a start that is not later than the clock, the selected slot is the one whose
  window contains \<open>elapsed minutes mod light total\<close>.
\<close>

lemma active_period_from_elapsed:
  fixes start_real :: int
  assumes "array_at (profiles s) (current_profile s) = Some profile"
    and "wf_profile profile" and "valid_durations profile"
    and "0 < light_total (periods profile)"
    and "app_start_time s = word_of_int start_real"
    and "0 \<le> uint now - start_real"
    and "(uint now - start_real) div 1000000 div 60 < 2 ^ 32"
  shows "\<exists>i changed s'.
      spec_active_period (periods profile)
        (nat ((uint now - start_real) div 1000000 div 60) mod light_total (periods profile))
        = Some i
    \<and> app_calculate_state now s = Inr (changed, s')
    \<and> period_index (current_app_state s') = word_of_nat i
    \<and> white_red (current_app_state s') = led_white_red_power (periods profile ! i)
    \<and> blue (current_app_state s') = led_blue_power (periods profile ! i)
    \<and> sint (period_minutes_left (current_app_state s'))
        = int (window_end (periods profile) i)
          - int (nat ((uint now - start_real) div 1000000 div 60)
                   mod light_total (periods profile))"
proof -
  have "uint (minutes_of_us (now - app_start_time s))
          = (uint now - start_real) div 1000000 div 60"
    unfolding assms(5) using assms(6,7) by (rule minutes_of_us_elapsed)
  then have "unat (minutes_of_us (now - app_start_time s))
               = nat ((uint now - start_real) div 1000000 div 60)"
    by (metis nat_int uint_nat)
  with engine_selects_window [OF assms(1-4), of now] show ?thesis by simp
qed

text \<open>The scenario of the specification: slot 1 with powers 0 and 0 and 940 minutes left.\<close>

lemma scenario_selected:
  "minutes_of_us (30000000000 - app_start_time scenario_state) = 500
   \<and> spec_active_period (periods scenario_profile) 500 = Some 1
   \<and> app_calculate_state 30000000000 scenario_state =
       Inr (True, scenario_state\<lparr>current_app_state :=
              \<lparr>period_index = 1, white_red = 0, blue = 0, pump = False,
               pump_minutes_left = 25, period_minutes_left = 940\<rparr>\<rparr>)"
  by (simp add: scenario_eval scenario_spec)
    (simp add: scenario_state_def booted_def power_on_def static_init_def minutes_of_us_def)

text \<open>
  C4, at a failing input. The \<open>+5\<close> hour shift applied at second 4 puts the shifted start
  five hours after the clock. The elapsed time is then \<open>-300\<close> minutes, position 1140 of the
  1440-minute cycle of the first factory profile, which is in the window of slot 1 (lights
  off). The engine subtracts in unsigned 64-bit arithmetic: the difference wraps, its
  truncated minute count leaves position 725, and the engine selects slot 0 with both
  powers 100 and 115 minutes left.
\<close>

theorem shift_ahead_of_uptime_misplaces_schedule:
  "\<not> isl shifted_ahead
   \<and> app_start_time (projr shifted_ahead) = 5 * 60 * 60 * 1000 * 1000
   \<and> current_profile (projr shifted_ahead) = 0
   \<and> ((4000000 - 5 * 60 * 60 * 1000 * 1000) div 1000000 div 60) mod 1440 = (1140 :: int)
   \<and> spec_active_period (periods (profiles (projr shifted_ahead) ! 0)) 1140 = Some 1
   \<and> unat (cycle_position 4000000 (app_start_time (projr shifted_ahead))
             (profiles (projr shifted_ahead) ! 0)) = 725
   \<and> period_index (current_app_state (projr shifted_ahead)) = 0
   \<and> white_red (current_app_state (projr shifted_ahead)) = 100
   \<and> blue (current_app_state (projr shifted_ahead)) = 100
   \<and> period_minutes_left (current_app_state (projr shifted_ahead)) = 115"
  by (simp add: shifted_ahead_def boot_and_run_def app_init_power_on)
    (simp add: booted_def power_on_def static_init_def engine_defs factory_defs handler_defs
      app_encoder_time_shift_def cycle_position_def spec_active_period_def window_start_def
      window_end_def light_total_def upt_rec word_sle_eq word_sless_alt)

text \<open>
  C7. On a profile with valid durations and a positive light total the second loop always
  finds a slot, so the branch after it is not taken, and the period index the engine
  leaves is the index of a slot whose duration is strictly positive.
\<close>

theorem period_index_has_positive_duration:
  assumes "array_at (profiles s) (current_profile s) = Some profile"
    and "wf_profile profile" and "valid_durations profile"
    and "0 < light_total (periods profile)"
  shows "\<exists>i changed s'.
      app_calculate_state now s = Inr (changed, s')
    \<and> i < MAX_PERIODS
    \<and> period_index (current_app_state s') = word_of_nat i
    \<and> 0 <s duration (periods profile ! i)
    \<and> find_period (periods profile) 0 (cycle_position now (app_start_time s) profile) 0 \<noteq> None"
proof -
  from engine_selects [OF assms(2-4), of now "app_start_time s"]
  obtain j left where j: "j < MAX_PERIODS"
    "find_period (periods profile) 0 (cycle_position now (app_start_time s) profile) 0
       = Some (word_of_nat j, periods profile ! j, left)"
    "duration (periods profile ! j) \<noteq> 0"
    by blast
  from assms(2,3) j(1) have "0 \<le>s duration (periods profile ! j)"
    by (simp add: wf_profile_def valid_durations_def list_all_length)
  then have pos: "0 <s duration (periods profile ! j)"
    using j(3) by (rule valid_nonzero_positive)
  define st' where "st' = snd (calculate_state now (app_start_time s)
                                  (app_start_time_without_shift s) profile (current_app_state s))"
  have st': "st' = light_write (Some (word_of_nat j, periods profile ! j, left))
                     (snd (pump_block (minutes_of_us (now - app_start_time_without_shift s))
                        (current_app_state s)))"
    unfolding st'_def
    by (simp add: calculate_state_lit [OF light_total_pos_sum [OF assms(2-4)]] j(2))
  show ?thesis
    apply (rule exI [of _ j])
    apply (rule exI [of _ "fst (calculate_state now (app_start_time s)
                                  (app_start_time_without_shift s) profile (current_app_state s))"])
    apply (rule exI [of _ "s\<lparr>current_app_state := st'\<rparr>"])
    using pos j(1,2)
    by (simp add: app_calculate_state_Inr [OF assms(1)] st'_def [symmetric])
      (simp add: st' light_write_def)
qed

theorem period_index_has_positive_duration_witness:
  "\<exists>i changed s'.
      app_calculate_state 30000000000 scenario_state = Inr (changed, s')
    \<and> i < MAX_PERIODS
    \<and> period_index (current_app_state s') = word_of_nat i
    \<and> 0 <s duration (periods scenario_profile ! i)
    \<and> find_period (periods scenario_profile) 0
          (cycle_position 30000000000 (app_start_time scenario_state) scenario_profile) 0 \<noteq> None"
proof -
  have "0 < light_total (periods scenario_profile)"
    by (simp add: scenario_facts(4))
  from period_index_has_positive_duration [OF scenario_facts(1-3) this, of 30000000000]
  show ?thesis .
qed

section \<open>Properties of the tick\<close>

text \<open>
  C2, at a failing input. After boot the user opens the first period of the active
  profile, enters the duration editor and turns the duration down by one hour at second 6;
  the tick then runs at second 17, eleven seconds after the last input. The threshold in
  \<^verbatim>\<open>app_tick\<close> is \<^verbatim>\<open>10000 * 6000\<close> microseconds, which is 60 seconds and not the 10
  seconds of its comment, so the mode is still the duration editor.
\<close>

theorem idle_eleven_seconds_keeps_editor:
  "\<not> isl (boot_and_run 0
        [(1000000, Click), (2000000, Rotate 1), (3000000, Click), (4000000, Rotate 1),
         (5000000, Click), (6000000, Rotate (- 1)), (17000000, Tick)])
   \<and> current_app_mode (projr (boot_and_run 0
        [(1000000, Click), (2000000, Rotate 1), (3000000, Click), (4000000, Rotate 1),
         (5000000, Click), (6000000, Rotate (- 1)), (17000000, Tick)])) = MODE_EDIT_DURATION
   \<and> last_encoder_time (projr (boot_and_run 0
        [(1000000, Click), (2000000, Rotate 1), (3000000, Click), (4000000, Rotate 1),
         (5000000, Click), (6000000, Rotate (- 1)), (17000000, Tick)])) = 6000000
   \<and> (10 * 1000000 :: uint64_t) < 17000000 - 6000000
   \<and> (10000 * 6000 :: uint64_t) = 60 * 1000000"
  by (simp add: boot_and_run_def app_init_power_on)
    (simp add: booted_def power_on_def static_init_def engine_defs factory_defs handler_defs
      word_sle_eq word_sless_alt)

text \<open>What the tick does once the idle time exceeds the threshold the code compares with.\<close>

lemma tick_after_sixty_seconds:
  assumes "60 * 1000000 < now - last_encoder_time s"
    and "current_app_mode s \<noteq> MODE_SHOW_STATE"
    and "app_tick now s = Inr s'"
  shows "current_app_mode s' = MODE_SHOW_STATE \<and> menu_profile_index s' = current_profile s
         \<and> profiles s' = profiles s \<and> current_profile s' = current_profile s"
  using assms
  by (auto simp add: app_tick_def Let_def app_redraw_def app_apply_state_def
      app_calculate_state_def split: option.splits prod.splits if_splits)

section \<open>Properties of persistence\<close>

lemma read_le32_le32: "read_le32 (le32 w) = w"
  unfolding read_le32_def le32_def
proof (rule bit_word_eqI)
  fix n
  assume "n < LENGTH(32)"
  then show "bit (ucast ([ucast w, ucast (drop_bit 8 w), ucast (drop_bit 16 w), ucast (drop_bit 24 w)] ! 0 :: 8 word) OR
            push_bit 8 (ucast ([ucast w, ucast (drop_bit 8 w), ucast (drop_bit 16 w), ucast (drop_bit 24 w)] ! 1 :: 8 word)) OR
            push_bit 16 (ucast ([ucast w, ucast (drop_bit 8 w), ucast (drop_bit 16 w), ucast (drop_bit 24 w)] ! 2 :: 8 word)) OR
            push_bit 24 (ucast ([ucast w, ucast (drop_bit 8 w), ucast (drop_bit 16 w), ucast (drop_bit 24 w)] ! 3 :: 8 word)) :: 32 word) n
           = bit w n"
    by (cases "n < 8"; cases "n < 16"; cases "n < 24") (auto simp add: bit_simps)
qed

lemma length_le32 [simp]: "length (le32 w) = 4"
  by (simp add: le32_def)

lemma length_bytes_of_period [simp]: "length (bytes_of_period p) = 12"
  by (simp add: bytes_of_period_def)

lemma period_of_bytes_of_period: "period_of_bytes (bytes_of_period p) = p"
  by (simp add: period_of_bytes_def bytes_of_period_def read_le32_le32)

text \<open>A block of a concatenation of equally long blocks.\<close>

lemma take_drop_concat_block:
  assumes "\<forall>x \<in> set xs. length (f x) = n" and "k < length xs"
  shows "take n (drop (n * k) (concat (map f xs))) = f (xs ! k)"
  using assms
proof (induction xs arbitrary: k)
  case Nil
  then show ?case by simp
next
  case (Cons x xs)
  show ?case
  proof (cases k)
    case 0
    with Cons.prems show ?thesis by simp
  next
    case (Suc k')
    with Cons.prems have "take n (drop (n * k') (concat (map f xs))) = f (xs ! k')"
      by (intro Cons.IH) simp_all
    with Suc Cons.prems(1) show ?thesis by simp
  qed
qed

lemma length_concat_blocks:
  assumes "\<forall>x \<in> set xs. length (f x) = n"
  shows "length (concat (map f xs)) = n * length xs"
  using assms by (induction xs) simp_all

lemma length_bytes_of_profile:
  "wf_profile p \<Longrightarrow> length (bytes_of_profile p) = 88"
  by (simp add: bytes_of_profile_def wf_profile_def MAX_PERIODS_def
      length_concat_blocks [where n = 12])

lemma profile_of_bytes_of_profile:
  assumes "wf_profile p"
  shows "profile_of_bytes (bytes_of_profile p) = p"
proof -
  have n: "take 16 (bytes_of_profile p) = name p"
    using assms by (simp add: bytes_of_profile_def wf_profile_def)
  have "map (\<lambda>k. period_of_bytes (take 12 (drop (16 + 12 * k) (bytes_of_profile p))))
          [0..<MAX_PERIODS] = periods p"
  proof (rule nth_equalityI)
    show "length (map (\<lambda>k. period_of_bytes (take 12 (drop (16 + 12 * k) (bytes_of_profile p))))
            [0..<MAX_PERIODS]) = length (periods p)"
      using assms by (simp add: wf_profile_def)
  next
    fix k
    assume "k < length (map (\<lambda>k. period_of_bytes (take 12 (drop (16 + 12 * k) (bytes_of_profile p))))
            [0..<MAX_PERIODS])"
    then have k: "k < length (periods p)" using assms by (simp add: wf_profile_def)
    have "drop (16 + 12 * k) (bytes_of_profile p)
            = drop (12 * k) (concat (map bytes_of_period (periods p)))"
      using assms by (simp add: bytes_of_profile_def wf_profile_def)
    then have "take 12 (drop (16 + 12 * k) (bytes_of_profile p)) = bytes_of_period (periods p ! k)"
      using take_drop_concat_block [of "periods p" bytes_of_period 12 k] k by simp
    with k assms
    show "map (\<lambda>k. period_of_bytes (take 12 (drop (16 + 12 * k) (bytes_of_profile p))))
            [0..<MAX_PERIODS] ! k = periods p ! k"
      by (simp add: wf_profile_def period_of_bytes_of_period)
  qed
  with n show ?thesis by (simp add: profile_of_bytes_def)
qed

lemma profiles_of_bytes_of_profiles:
  assumes "wf_profiles ps"
  shows "profiles_of_bytes (bytes_of_profiles ps @ rest) = ps"
  unfolding profiles_of_bytes_def
proof (rule nth_equalityI)
  show "length (map (\<lambda>k. profile_of_bytes (take 88 (drop (88 * k) (bytes_of_profiles ps @ rest))))
          [0..<MAX_PROFILES]) = length ps"
    using assms by (simp add: wf_profiles_def)
next
  fix k
  assume "k < length (map (\<lambda>k. profile_of_bytes (take 88 (drop (88 * k) (bytes_of_profiles ps @ rest))))
          [0..<MAX_PROFILES])"
  then have k: "k < length ps" using assms by (simp add: wf_profiles_def)
  have all: "\<forall>p \<in> set ps. length (bytes_of_profile p) = 88"
    using assms by (simp add: wf_profiles_def list_all_iff length_bytes_of_profile)
  have len: "length (bytes_of_profiles ps) = 88 * length ps"
    unfolding bytes_of_profiles_def using all by (rule length_concat_blocks)
  have "take 88 (drop (88 * k) (bytes_of_profiles ps)) = bytes_of_profile (ps ! k)"
    unfolding bytes_of_profiles_def using all k by (rule take_drop_concat_block)
  moreover have "88 * k + 88 \<le> length (bytes_of_profiles ps)"
    using k len by simp
  ultimately have "take 88 (drop (88 * k) (bytes_of_profiles ps @ rest)) = bytes_of_profile (ps ! k)"
    by simp
  moreover have "wf_profile (ps ! k)"
    using assms k by (simp add: wf_profiles_def list_all_length)
  ultimately show "map (\<lambda>k. profile_of_bytes (take 88 (drop (88 * k) (bytes_of_profiles ps @ rest))))
          [0..<MAX_PROFILES] ! k = ps ! k"
    using k assms by (simp add: wf_profiles_def profile_of_bytes_of_profile)
qed


lemma length_bytes_of_profiles:
  assumes "wf_profiles ps"
  shows "length (bytes_of_profiles ps) = 440"
proof -
  have "\<forall>p \<in> set ps. length (bytes_of_profile p) = 88"
    using assms by (simp add: wf_profiles_def list_all_iff length_bytes_of_profile)
  then have "length (bytes_of_profiles ps) = 88 * length ps"
    unfolding bytes_of_profiles_def by (rule length_concat_blocks)
  with assms show ?thesis by (simp add: wf_profiles_def MAX_PROFILES_def)
qed

lemma saved_sector:
  assumes "wf_profiles (profiles s)" and "length (flash_buffer s) = FLASH_SECTOR_SIZE"
  shows "flash_sector (app_save_profiles s) =
           [0xA5, 0x5A, 0xA5, 0x5A] @ le32 (current_profile s) @ bytes_of_profiles (profiles s)
             @ drop 448 (flash_buffer s)"
  using assms length_bytes_of_profiles [OF assms(1)]
  by (simp add: app_save_profiles_def Let_def memcpy_into_def app_redraw_def FLASH_SECTOR_SIZE_def)

lemma reload_of_sector:
  assumes "flash_sector t = [0xA5, 0x5A, 0xA5, 0x5A] @ le32 cp @ bytes_of_profiles ps @ rest"
    and "wf_profiles ps"
  shows "profiles (app_reload_profiles with_ui t) = ps"
    and "current_profile (app_reload_profiles with_ui t)
           = (if cp <s 0 \<or> word_of_nat MAX_PROFILES \<le>s cp then 0 else cp)"
    and "menu_profile_index (app_reload_profiles with_ui t)
           = current_profile (app_reload_profiles with_ui t)"
    and "current_app_mode (app_reload_profiles with_ui t) = MODE_SHOW_STATE"
proof -
  have m: "magic_ok (flash_sector t)"
    by (simp add: assms(1) magic_ok_def)
  have c: "read_le32 (take 4 (drop 4 (flash_sector t))) = cp"
    by (simp add: assms(1) read_le32_le32)
  have "take sizeof_profiles (drop (4 + 4) (flash_sector t)) = bytes_of_profiles ps"
    using length_bytes_of_profiles [OF assms(2)]
    by (simp add: assms(1) sizeof_profiles_def MAX_PROFILES_def MAX_PERIODS_def)
  then have p: "profiles_of_bytes (take sizeof_profiles (drop (4 + 4) (flash_sector t))) = ps"
    using profiles_of_bytes_of_profiles [OF assms(2), of "[]"] by simp
  show "profiles (app_reload_profiles with_ui t) = ps"
    using m c p by (simp add: app_reload_profiles_def Let_def app_redraw_def)
  show "current_profile (app_reload_profiles with_ui t)
           = (if cp <s 0 \<or> word_of_nat MAX_PROFILES \<le>s cp then 0 else cp)"
    using m c p by (simp add: app_reload_profiles_def Let_def app_redraw_def)
  show "menu_profile_index (app_reload_profiles with_ui t)
           = current_profile (app_reload_profiles with_ui t)"
    using m by (simp add: app_reload_profiles_def Let_def app_redraw_def)
  show "current_app_mode (app_reload_profiles with_ui t) = MODE_SHOW_STATE"
    using m by (simp add: app_reload_profiles_def Let_def app_redraw_def)
qed

lemma wf_factory_profiles: "wf_profiles factory_profiles"
  by (simp add: wf_profiles_def wf_profile_def factory_defs name16_def MAX_PROFILES_def
      MAX_PERIODS_def)

text \<open>
  C5. After \<^verbatim>\<open>app_save_profiles\<close> on a state with five well-formed profiles and an active
  index in \<open>0 .. 4\<close>, \<^verbatim>\<open>app_reload_profiles\<close> on any state that sees the written sector
  restores exactly the saved profiles and the saved index; and on any sector that carries
  the marker with a stored index outside \<open>0 .. 4\<close> it leaves the index 0.
\<close>

theorem save_then_load:
  assumes "wf_profiles (profiles s)"
    and "0 \<le>s current_profile s" and "current_profile s <s 5"
    and "length (flash_buffer s) = FLASH_SECTOR_SIZE"
    and "flash_sector t = flash_sector (app_save_profiles s)"
  shows "profiles (app_reload_profiles with_ui t) = profiles s
       \<and> current_profile (app_reload_profiles with_ui t) = current_profile s
       \<and> (\<forall>u. magic_ok (flash_sector u)
              \<and> (read_le32 (take 4 (drop 4 (flash_sector u))) <s 0
                  \<or> 5 \<le>s read_le32 (take 4 (drop 4 (flash_sector u))))
            \<longrightarrow> current_profile (app_reload_profiles with_ui u) = 0)"
proof -
  have sec: "flash_sector t =
           [0xA5, 0x5A, 0xA5, 0x5A] @ le32 (current_profile s) @ bytes_of_profiles (profiles s)
             @ drop 448 (flash_buffer s)"
    using assms(5) saved_sector [OF assms(1,4)] by simp
  have "\<not> (current_profile s <s 0 \<or> word_of_nat MAX_PROFILES \<le>s current_profile s)"
    using assms(2,3) by (simp add: MAX_PROFILES_def word_sle_eq word_sless_alt)
  with reload_of_sector(1,2) [OF sec assms(1), of with_ui]
  have "profiles (app_reload_profiles with_ui t) = profiles s"
    "current_profile (app_reload_profiles with_ui t) = current_profile s"
    by simp_all
  moreover have "current_profile (app_reload_profiles with_ui u) = 0"
    if "magic_ok (flash_sector u)"
      and "read_le32 (take 4 (drop 4 (flash_sector u))) <s 0
            \<or> 5 \<le>s read_le32 (take 4 (drop 4 (flash_sector u)))" for u
    using that by (auto simp add: app_reload_profiles_def Let_def app_redraw_def MAX_PROFILES_def)
  ultimately show ?thesis by blast
qed

theorem save_then_load_witness:
  "profiles (app_reload_profiles False restarted_after_save) = profiles custom1_selected
   \<and> current_profile (app_reload_profiles False restarted_after_save) = 3
   \<and> magic_ok index7_sector
   \<and> read_le32 (take 4 (drop 4 index7_sector)) = 7
   \<and> current_profile (app_reload_profiles False (booted\<lparr>flash_sector := index7_sector\<rparr>)) = 0"
proof -
  have h1: "wf_profiles (profiles custom1_selected)"
    by (simp add: custom1_selected_def booted_def power_on_def static_init_def wf_factory_profiles)
  have h2: "0 \<le>s current_profile custom1_selected" "current_profile custom1_selected <s 5"
    by (simp_all add: custom1_selected_def word_sle_eq word_sless_alt)
  have h3: "length (flash_buffer custom1_selected) = FLASH_SECTOR_SIZE"
    by (simp add: custom1_selected_def booted_def power_on_def static_init_def)
  have h4: "flash_sector restarted_after_save = flash_sector (app_save_profiles custom1_selected)"
    by (simp add: restarted_after_save_def)
  have m: "magic_ok index7_sector"
    by (simp add: index7_sector_def magic_ok_def)
  have i: "read_le32 (take 4 (drop 4 index7_sector)) = 7"
    by (simp add: index7_sector_def read_le32_le32)
  have c: "current_profile custom1_selected = 3"
    by (simp add: custom1_selected_def)
  from save_then_load [OF h1 h2 h3 h4, of False] m i c show ?thesis
    by (simp add: word_sle_eq)
qed

text \<open>
  C10. When the four marker bytes do not match, \<^verbatim>\<open>app_reload_profiles\<close> leaves the
  profiles, the active index, the menu index and the mode as they were, and so does the
  click on RELOAD in the top menu, which stays in the top menu. When they match, the
  profiles are overwritten from the sector, the menu index is the active index and the mode
  is the state display.
\<close>

theorem reload_without_marker_keeps_state:
  "(\<not> magic_ok (flash_sector s) \<longrightarrow>
      profiles (app_reload_profiles with_ui s) = profiles s
    \<and> current_profile (app_reload_profiles with_ui s) = current_profile s
    \<and> menu_profile_index (app_reload_profiles with_ui s) = menu_profile_index s
    \<and> current_app_mode (app_reload_profiles with_ui s) = current_app_mode s)
   \<and> (\<not> magic_ok (flash_sector s) \<and> current_app_mode s = MODE_TOP_MENU
        \<and> current_top_menu_action s = TOP_MENU_RELOAD \<longrightarrow>
      (\<exists>s'. app_on_click now s = Inr s'
         \<and> profiles s' = profiles s
         \<and> current_profile s' = current_profile s
         \<and> menu_profile_index s' = menu_profile_index s
         \<and> current_app_mode s' = MODE_TOP_MENU))
   \<and> (magic_ok (flash_sector s) \<longrightarrow>
      profiles (app_reload_profiles with_ui s)
        = profiles_of_bytes (take sizeof_profiles (drop (4 + 4) (flash_sector s)))
    \<and> menu_profile_index (app_reload_profiles with_ui s)
        = current_profile (app_reload_profiles with_ui s)
    \<and> current_app_mode (app_reload_profiles with_ui s) = MODE_SHOW_STATE)"
  by (simp add: app_reload_profiles_def app_on_click_def Let_def app_redraw_def)

theorem reload_without_marker_keeps_state_witness:
  "\<not> magic_ok (flash_sector top_menu_reload)
   \<and> profiles (app_reload_profiles True top_menu_reload) = profiles top_menu_reload
   \<and> current_profile (app_reload_profiles True top_menu_reload) = 0
   \<and> menu_profile_index (app_reload_profiles True top_menu_reload) = 0
   \<and> current_app_mode (app_reload_profiles True top_menu_reload) = MODE_TOP_MENU
   \<and> (\<exists>s'. app_on_click 1000000 top_menu_reload = Inr s'
         \<and> profiles s' = profiles top_menu_reload
         \<and> current_profile s' = 0
         \<and> menu_profile_index s' = 0
         \<and> current_app_mode s' = MODE_TOP_MENU)
   \<and> magic_ok (flash_sector restarted_after_save)
   \<and> menu_profile_index (app_reload_profiles True restarted_after_save)
        = current_profile (app_reload_profiles True restarted_after_save)
   \<and> current_app_mode (app_reload_profiles True restarted_after_save) = MODE_SHOW_STATE"
proof -
  have n: "\<not> magic_ok (flash_sector top_menu_reload)"
    by (simp add: top_menu_reload_def booted_def power_on_def static_init_def
        erased_sector_no_magic)
  have t: "current_app_mode top_menu_reload = MODE_TOP_MENU"
    "current_top_menu_action top_menu_reload = TOP_MENU_RELOAD"
    "current_profile top_menu_reload = 0" "menu_profile_index top_menu_reload = 0"
    by (simp_all add: top_menu_reload_def booted_def power_on_def static_init_def)
  have "wf_profiles (profiles custom1_selected)"
    by (simp add: custom1_selected_def booted_def power_on_def static_init_def wf_factory_profiles)
  moreover have "length (flash_buffer custom1_selected) = FLASH_SECTOR_SIZE"
    by (simp add: custom1_selected_def booted_def power_on_def static_init_def)
  ultimately have m: "magic_ok (flash_sector restarted_after_save)"
    by (simp add: restarted_after_save_def saved_sector magic_ok_def)
  from reload_without_marker_keeps_state [of top_menu_reload True 1000000]
    reload_without_marker_keeps_state [of restarted_after_save True 0] n t m
  show ?thesis by simp
qed

section \<open>Properties of the navigation state machine\<close>

lemmas inv_defs = nav_inv_def edit_index_inv_def shape_inv_def

lemma array_at_Some:
  "0 \<le>s i \<Longrightarrow> sint i < int (length xs) \<Longrightarrow> array_at xs i = Some (xs ! nat (sint i))"
  by (simp add: array_at_def)

lemma nav_inv_profile:
  assumes "nav_inv s"
  shows "\<exists>profile. array_at (profiles s) (current_profile s) = Some profile
           \<and> length (periods profile) = MAX_PERIODS"
proof -
  from assms have a: "0 \<le>s current_profile s" "sint (current_profile s) < 5"
    "length (profiles s) = 5" "0 \<le> sint (current_profile s)"
    by (simp_all add: inv_defs word_sless_alt word_sle_eq MAX_PROFILES_def)
  then have "nat (sint (current_profile s)) < length (profiles s)" by simp
  with assms have "length (periods (profiles s ! nat (sint (current_profile s)))) = MAX_PERIODS"
    by (simp add: inv_defs list_all_length)
  with a show ?thesis by (simp add: array_at_def)
qed

lemma nav_inv_calculate:
  assumes "nav_inv s"
  shows "\<exists>changed st. app_calculate_state now s = Inr (changed, s\<lparr>current_app_state := st\<rparr>)"
  using nav_inv_profile [OF assms] by (auto simp add: app_calculate_state_Inr)

lemma nav_inv_frame [simp]:
  "nav_inv (s\<lparr>current_app_state := st\<rparr>) = nav_inv s"
  "nav_inv (s\<lparr>last_encoder_time := t\<rparr>) = nav_inv s"
  "nav_inv (s\<lparr>app_start_time := t\<rparr>) = nav_inv s"
  "nav_inv (app_redraw s) = nav_inv s"
  "nav_inv (app_apply_state s) = nav_inv s"
  by (simp_all add: inv_defs app_redraw_def app_apply_state_def)

lemma nav_inv_tick:
  assumes "nav_inv s"
  shows "\<exists>s'. app_tick now s = Inr s' \<and> nav_inv s'"
proof -
  define s1 where "s1 = (if 10000 * 6000 < now - last_encoder_time s
                   \<and> current_app_mode s \<noteq> MODE_SHOW_STATE
                then app_redraw (s\<lparr>current_app_mode := MODE_SHOW_STATE,
                                   menu_profile_index := current_profile s\<rparr>)
                else s)"
  have i1: "nav_inv s1"
    using assms by (simp add: s1_def) (simp add: inv_defs app_redraw_def)
  from nav_inv_calculate [OF i1, of now] obtain changed st where
    c: "app_calculate_state now s1 = Inr (changed, s1\<lparr>current_app_state := st\<rparr>)" by blast
  have "app_tick now s =
          (if current_app_mode s1 = MODE_SHOW_STATE then
             (case app_calculate_state now s1 of
                Inl f \<Rightarrow> Inl f
              | Inr (changed, s2) \<Rightarrow> Inr (if changed then app_redraw (app_apply_state s2) else s2))
           else Inr s1)"
    by (simp only: app_tick_def s1_def Let_def)
  with i1 c show ?thesis
    by (cases "current_app_mode s1 = MODE_SHOW_STATE") simp_all
qed

lemma nav_inv_period_ref:
  assumes "nav_inv s" "0 \<le>s current_edit_period_index s"
  shows "\<exists>period. period_ref s = Some period"
proof -
  from nav_inv_profile [OF assms(1)] obtain profile where
    p: "array_at (profiles s) (current_profile s) = Some profile"
       "length (periods profile) = MAX_PERIODS" by blast
  from assms have "sint (current_edit_period_index s) < int (length (periods profile))"
    by (simp add: inv_defs p(2) MAX_PERIODS_def word_sle_eq)
  with assms(2) p(1) show ?thesis
    by (simp add: period_ref_def array_at_def)
qed

lemma nav_inv_period_store [simp]:
  "nav_inv (period_store s period) = nav_inv s"
proof -
  have "length (periods (((profiles s)[i := (profiles s ! i)
            \<lparr>periods := (periods (profiles s ! i))[j := period]\<rparr>]) ! n))
          = length (periods (profiles s ! n))" if "n < length (profiles s)" for i j n
    using that by (cases "n = i") simp_all
  then have "list_all (\<lambda>p. length (periods p) = MAX_PERIODS)
          ((profiles s)[i := (profiles s ! i)\<lparr>periods := (periods (profiles s ! i))[j := period]\<rparr>])
        = list_all (\<lambda>p. length (periods p) = MAX_PERIODS) (profiles s)" for i j
    by (simp add: list_all_length)
  then show ?thesis
    by (simp add: inv_defs period_store_def Let_def)
qed

lemma nav_inv_show_profile:
  "nav_inv s \<Longrightarrow> current_app_mode s \<in> {MODE_SHOW_STATE, MODE_SHOW_PROFILE}
     \<Longrightarrow> nav_inv (app_encoder_show_profile delta s)"
  by (auto simp add: app_encoder_show_profile_def Let_def inv_defs app_redraw_def MAX_PROFILES_def
      word_sle_eq word_sless_alt)

lemma nav_inv_edit_profile:
  "nav_inv s \<Longrightarrow> current_app_mode s = MODE_EDIT_PROFILE
     \<Longrightarrow> nav_inv (app_encoder_edit_profile delta s)"
  by (auto simp add: app_encoder_edit_profile_def Let_def inv_defs app_redraw_def MAX_PERIODS_def
      word_sle_eq word_sless_alt)

lemma nav_inv_edit_period:
  "nav_inv s \<Longrightarrow> nav_inv (app_encoder_edit_period delta s)"
  by (simp add: app_encoder_edit_period_def Let_def) (simp add: inv_defs app_redraw_def)

lemma nav_inv_top_menu:
  "nav_inv s \<Longrightarrow> current_app_mode s = MODE_TOP_MENU \<Longrightarrow> nav_inv (app_encoder_top_menu delta s)"
  by (auto simp add: app_encoder_top_menu_def Let_def inv_defs app_redraw_def
      word_sle_eq word_sless_alt)

lemma nav_inv_time_shift:
  "nav_inv s \<Longrightarrow> nav_inv (app_encoder_time_shift delta s)"
  by (simp add: app_encoder_time_shift_def Let_def) (simp add: inv_defs app_redraw_def)

lemma nav_inv_edit_duration:
  assumes "nav_inv s" "current_app_mode s = MODE_EDIT_DURATION"
  shows "\<exists>s'. app_encoder_edit_duration delta s = Inr s' \<and> nav_inv s'"
proof -
  from assms have "0 \<le>s current_edit_period_index s" by (simp add: inv_defs)
  from nav_inv_period_ref [OF assms(1) this] obtain period where "period_ref s = Some period" ..
  with assms(1) show ?thesis
    by (simp add: app_encoder_edit_duration_def Let_def)
qed

lemma nav_inv_edit_white_red_level:
  assumes "nav_inv s" "current_app_mode s = MODE_EDIT_WR_LEVEL"
  shows "\<exists>s'. app_encoder_edit_white_red_level delta s = Inr s' \<and> nav_inv s'"
proof -
  from assms have "0 \<le>s current_edit_period_index s" by (simp add: inv_defs)
  from nav_inv_period_ref [OF assms(1) this] obtain period where "period_ref s = Some period" ..
  with assms(1) show ?thesis
    by (simp add: app_encoder_edit_white_red_level_def Let_def)
qed

lemma nav_inv_edit_blue_level:
  assumes "nav_inv s" "current_app_mode s = MODE_EDIT_BL_LEVEL"
  shows "\<exists>s'. app_encoder_edit_blue_level delta s = Inr s' \<and> nav_inv s'"
proof -
  from assms have "0 \<le>s current_edit_period_index s" by (simp add: inv_defs)
  from nav_inv_period_ref [OF assms(1) this] obtain period where "period_ref s = Some period" ..
  with assms(1) show ?thesis
    by (simp add: app_encoder_edit_blue_level_def Let_def)
qed

lemma nav_inv_encoder_change:
  assumes "nav_inv s"
  shows "\<exists>s'. app_on_encoder_change now delta s = Inr s' \<and> nav_inv s'"
proof (cases "delta = 0")
  case True
  with assms show ?thesis by (simp add: app_on_encoder_change_def)
next
  case False
  define s1 where "s1 = s\<lparr>last_encoder_time := now\<rparr>"
  have i1: "nav_inv s1" using assms by (simp add: s1_def)
  have m1: "current_app_mode s1 = current_app_mode s" by (simp add: s1_def)
  show ?thesis
  proof (cases "current_app_mode s")
    case MODE_SHOW_STATE
    with False nav_inv_show_profile [OF i1, of delta] m1 show ?thesis
      by (simp add: app_on_encoder_change_def s1_def [symmetric])
  next
    case MODE_SHOW_PROFILE
    with False nav_inv_show_profile [OF i1, of delta] m1 show ?thesis
      by (simp add: app_on_encoder_change_def s1_def [symmetric])
  next
    case MODE_EDIT_PROFILE
    with False nav_inv_edit_profile [OF i1, of delta] m1 show ?thesis
      by (simp add: app_on_encoder_change_def s1_def [symmetric])
  next
    case MODE_EDIT_PERIOD
    with False nav_inv_edit_period [OF i1, of delta] m1 show ?thesis
      by (simp add: app_on_encoder_change_def s1_def [symmetric])
  next
    case MODE_EDIT_WR_LEVEL
    with False nav_inv_edit_white_red_level [OF i1, of delta] m1 show ?thesis
      by (simp add: app_on_encoder_change_def s1_def [symmetric])
  next
    case MODE_EDIT_BL_LEVEL
    with False nav_inv_edit_blue_level [OF i1, of delta] m1 show ?thesis
      by (simp add: app_on_encoder_change_def s1_def [symmetric])
  next
    case MODE_EDIT_DURATION
    with False nav_inv_edit_duration [OF i1, of delta] m1 show ?thesis
      by (simp add: app_on_encoder_change_def s1_def [symmetric])
  next
    case MODE_TOP_MENU
    with False nav_inv_top_menu [OF i1, of delta] m1 show ?thesis
      by (simp add: app_on_encoder_change_def s1_def [symmetric])
  next
    case MODE_TIME_SHIFT
    with False nav_inv_time_shift [OF i1, of delta] m1 show ?thesis
      by (simp add: app_on_encoder_change_def s1_def [symmetric])
  qed
qed

lemma not_minus_one_nonneg:
  fixes i :: "32 word"
  assumes "- 1 \<le>s i" "i \<noteq> - 1"
  shows "0 \<le>s i"
proof -
  have "sint i \<noteq> - 1"
  proof
    assume "sint i = - 1"
    then have "sint i = sint (- 1 :: 32 word)" by simp
    then have "i = - 1" by (rule signed_word_eqI)
    with assms(2) show False by simp
  qed
  with assms(1) show ?thesis by (simp add: word_sle_eq)
qed

lemma shape_profiles_of_bytes:
  "length (profiles_of_bytes bs) = MAX_PROFILES"
  "list_all (\<lambda>p. length (periods p) = MAX_PERIODS) (profiles_of_bytes bs)"
  by (simp_all add: profiles_of_bytes_def profile_of_bytes_def list_all_iff)

lemma nav_inv_reload:
  assumes "nav_inv s"
  shows "nav_inv (app_reload_profiles with_ui s)"
proof (cases "magic_ok (flash_sector s)")
  case False
  with assms show ?thesis by (simp add: app_reload_profiles_def)
next
  case True
  with assms show ?thesis
    by (simp add: app_reload_profiles_def Let_def)
      (auto simp add: inv_defs shape_profiles_of_bytes app_redraw_def MAX_PROFILES_def
        word_sle_eq word_sless_alt)
qed

lemma nav_inv_save:
  assumes "nav_inv s"
  shows "nav_inv (app_save_profiles s)"
  using assms by (simp add: app_save_profiles_def Let_def) (simp add: inv_defs)

lemma nav_inv_click:
  assumes "nav_inv s"
  shows "app_on_click now s = Inl Bootloader_Entered
           \<or> (\<exists>s'. app_on_click now s = Inr s' \<and> nav_inv s')"
proof -
  define s1 where "s1 = s\<lparr>last_encoder_time := now\<rparr>"
  have i1: "nav_inv s1" using assms by (simp add: s1_def)
  have m1: "current_app_mode s1 = current_app_mode s" by (simp add: s1_def)
  show ?thesis
  proof (cases "current_app_mode s")
    case MODE_SHOW_STATE
    with i1 m1 show ?thesis
      by (simp add: app_on_click_def s1_def [symmetric])
        (simp add: inv_defs word_sle_eq word_sless_alt)
  next
    case MODE_SHOW_PROFILE
    define s2 where "s2 = s1\<lparr>current_profile := menu_profile_index s1,
                              current_app_mode := MODE_SHOW_STATE\<rparr>"
    have "nav_inv s2" using i1 by (simp add: s2_def inv_defs)
    from nav_inv_calculate [OF this, of now] obtain changed st where
      "app_calculate_state now s2 = Inr (changed, s2\<lparr>current_app_state := st\<rparr>)" by blast
    with MODE_SHOW_PROFILE i1 m1 \<open>nav_inv s2\<close> show ?thesis
      by (simp add: app_on_click_def s1_def [symmetric] s2_def [symmetric])
  next
    case MODE_EDIT_PROFILE
    show ?thesis
    proof (cases "current_edit_period_index s1 = - 1")
      case True
      with MODE_EDIT_PROFILE i1 m1 show ?thesis
        by (simp add: app_on_click_def s1_def [symmetric])
        (simp add: inv_defs word_sle_eq word_sless_alt)
    next
      case False
      define s2 where "s2 = s1\<lparr>current_app_mode := MODE_EDIT_PERIOD, current_edit_value := EDIT_BACK\<rparr>"
      from i1 False have nn: "0 \<le>s current_edit_period_index s1"
        by (intro not_minus_one_nonneg) (simp_all add: inv_defs)
      then have i2: "nav_inv s2" using i1 by (simp add: s2_def inv_defs)
      from nn have "0 \<le>s current_edit_period_index s2" by (simp add: s2_def)
      from nav_inv_period_ref [OF i2 this] obtain period where "period_ref s2 = Some period" ..
      with MODE_EDIT_PROFILE False i2 m1 show ?thesis
        by (simp add: app_on_click_def s1_def [symmetric] s2_def [symmetric])
    qed
  next
    case MODE_EDIT_PERIOD
    with i1 m1 show ?thesis
      by (simp add: app_on_click_def s1_def [symmetric])
        (simp add: inv_defs split: edit_mode_t.splits)
  next
    case MODE_EDIT_WR_LEVEL
    with i1 m1 show ?thesis
      by (simp add: app_on_click_def s1_def [symmetric])
        (simp add: inv_defs word_sle_eq word_sless_alt)
  next
    case MODE_EDIT_BL_LEVEL
    with i1 m1 show ?thesis
      by (simp add: app_on_click_def s1_def [symmetric])
        (simp add: inv_defs word_sle_eq word_sless_alt)
  next
    case MODE_EDIT_DURATION
    with i1 m1 show ?thesis
      by (simp add: app_on_click_def s1_def [symmetric])
        (simp add: inv_defs word_sle_eq word_sless_alt)
  next
    case MODE_TOP_MENU
    have "nav_inv (s1\<lparr>time_shift_hours := 0, current_app_mode := MODE_TIME_SHIFT\<rparr>)"
      using i1 by (simp add: inv_defs)
    with MODE_TOP_MENU i1 m1 nav_inv_save [OF i1] nav_inv_reload [OF i1, of True] show ?thesis
      by (simp add: app_on_click_def s1_def [symmetric] split: top_menu_action_t.splits)
  next
    case MODE_TIME_SHIFT
    define s2 where "s2 = s1\<lparr>current_app_mode := MODE_TOP_MENU\<rparr>"
    have i2: "nav_inv s2" using i1 by (simp add: s2_def inv_defs)
    have "\<exists>s'. (case app_calculate_state now (s2\<lparr>app_start_time := t\<rparr>) of
                   Inl f \<Rightarrow> Inl f | Inr (changed, s3) \<Rightarrow> Inr (app_redraw s3)) = Inr s'
                \<and> nav_inv s'" for t
    proof -
      have "nav_inv (s2\<lparr>app_start_time := t\<rparr>)" using i2 by simp
      from nav_inv_calculate [OF this, of now] obtain changed st where
        "app_calculate_state now (s2\<lparr>app_start_time := t\<rparr>)
           = Inr (changed, s2\<lparr>app_start_time := t, current_app_state := st\<rparr>)" by blast
      with i2 show ?thesis by simp
    qed
    with MODE_TIME_SHIFT i2 m1 show ?thesis
      by (simp add: app_on_click_def s1_def [symmetric] Let_def s2_def [symmetric])
  qed
qed

lemma nav_inv_static_init: "nav_inv (static_init sector)"
  by (simp add: inv_defs static_init_def factory_defs MAX_PROFILES_def MAX_PERIODS_def
      word_sle_eq word_sless_alt)

lemma nav_inv_init:
  assumes "app_init now (static_init sector) = Inr s"
  shows "nav_inv s"
proof -
  define s3 where "s3 = (static_init sector)\<lparr>current_profile := 0, app_start_time := now,
                           app_start_time_without_shift := now, percent_blue := 0,
                           percent_white_red := 0\<rparr>"
  have "nav_inv s3"
    using nav_inv_static_init [of sector] by (simp add: s3_def inv_defs word_sle_eq word_sless_alt)
  then have "nav_inv (app_reload_profiles False s3)" by (rule nav_inv_reload)
  from nav_inv_tick [OF this, of now] assms show ?thesis
    by (simp add: app_init_def Let_def s3_def)
qed

lemma nav_inv_step:
  assumes "nav_inv s"
  shows "step now e s \<noteq> Inl Out_Of_Bounds \<and> (\<forall>s'. step now e s = Inr s' \<longrightarrow> nav_inv s')"
proof (cases e)
  case (Rotate delta)
  with nav_inv_encoder_change [OF assms, of now delta] show ?thesis by auto
next
  case Click
  with nav_inv_click [OF assms, of now] show ?thesis by auto
next
  case Tick
  with nav_inv_tick [OF assms, of now] show ?thesis by auto
qed

lemma reachable_nav_inv: "reachable s \<Longrightarrow> nav_inv s"
proof (induction rule: reachable.induct)
  case (reachable_init sector now s)
  then show ?case by (simp add: nav_inv_init)
next
  case (reachable_step s now e s')
  with nav_inv_step [of s now e] show ?case by simp
qed

lemma run_events_reachable:
  "reachable s \<Longrightarrow> run_events es s = Inr s' \<Longrightarrow> reachable s'"
proof (induction es arbitrary: s)
  case Nil
  then show ?case by simp
next
  case (Cons a es)
  obtain now e where a: "a = (now, e)" by (cases a)
  from Cons.prems(2) obtain s1 where s1: "step now e s = Inr s1" "run_events es s1 = Inr s'"
    by (auto simp add: a split: sum.splits)
  from Cons.prems(1) s1(1) have "reachable s1" by (rule reachable_step)
  from Cons.IH [OF this s1(2)] show ?case .
qed

lemma reachable_booted: "reachable booted"
proof (rule reachable_init)
  show "length erased_sector = FLASH_SECTOR_SIZE" by (simp add: erased_sector_def)
  show "app_init 0 (static_init erased_sector) = Inr booted"
    using app_init_power_on by (simp add: power_on_def)
qed

lemma editing_duration_eval:
  "run_events
       [(1000000, Click), (2000000, Rotate 1), (3000000, Click), (4000000, Rotate 1),
        (5000000, Click)] booted = Inr editing_duration"
  "current_app_mode editing_duration = MODE_EDIT_DURATION"
  "current_edit_period_index editing_duration = 0"
  by (simp_all add: editing_duration_def boot_and_run_def app_init_power_on)
    (simp_all add: booted_def power_on_def static_init_def engine_defs factory_defs handler_defs
      word_sle_eq word_sless_alt)

text \<open>
  C9. In every state reachable from start-up through rotations, clicks and ticks, the edited
  period index is between \<open>-1\<close> and 5, it is at least 0 whenever the mode is one of the four
  that read the period, and no handler reads an array outside its bounds.
\<close>

theorem edit_index_in_bounds:
  assumes "reachable s"
  shows "- 1 \<le>s current_edit_period_index s \<and> current_edit_period_index s \<le>s 5
       \<and> (current_app_mode s \<in> {MODE_EDIT_PERIOD, MODE_EDIT_DURATION, MODE_EDIT_WR_LEVEL,
                                  MODE_EDIT_BL_LEVEL}
            \<longrightarrow> 0 \<le>s current_edit_period_index s)
       \<and> (\<forall>now e. step now e s \<noteq> Inl Out_Of_Bounds)"
proof -
  from assms have i: "nav_inv s" by (rule reachable_nav_inv)
  then have "step now e s \<noteq> Inl Out_Of_Bounds" for now e
    using nav_inv_step [of s now e] by simp
  with i show ?thesis by (simp add: inv_defs)
qed

theorem edit_index_in_bounds_witness:
  "reachable editing_duration
   \<and> current_app_mode editing_duration = MODE_EDIT_DURATION
   \<and> - 1 \<le>s current_edit_period_index editing_duration
   \<and> current_edit_period_index editing_duration \<le>s 5
   \<and> 0 \<le>s current_edit_period_index editing_duration
   \<and> (\<forall>now e. step now e editing_duration \<noteq> Inl Out_Of_Bounds)"
proof -
  have r: "reachable editing_duration"
    using reachable_booted editing_duration_eval(1) by (rule run_events_reachable)
  from edit_index_in_bounds [OF r] r editing_duration_eval(2) show ?thesis by simp
qed

section \<open>Properties of redraw requests\<close>

lemma small_word_cases:
  fixes v :: "32 word"
  assumes "0 \<le> sint v" "sint v \<le> 3"
  shows "v = 0 \<or> v = 1 \<or> v = 2 \<or> v = 3"
proof -
  have c: "v = w" if "sint v = sint w" for w :: "32 word"
    using that by (rule signed_word_eqI)
  from assms have "sint v = 0 \<or> sint v = 1 \<or> sint v = 2 \<or> sint v = 3" by linarith
  then show ?thesis
  proof (elim disjE)
    assume "sint v = 0" then show ?thesis using c [of 0] by simp
  next
    assume "sint v = 1" then show ?thesis using c [of 1] by simp
  next
    assume "sint v = 2" then show ?thesis using c [of 2] by simp
  next
    assume "sint v = 3" then show ?thesis using c [of 3] by simp
  qed
qed

lemma edit_of_value_changes:
  assumes "\<not> v <s 0" "\<not> 3 <s v" "v \<noteq> edit_value e"
  shows "edit_of_value v \<noteq> e"
proof -
  from assms(1,2) have "v = 0 \<or> v = 1 \<or> v = 2 \<or> v = 3"
    by (intro small_word_cases) (simp_all add: word_sless_alt)
  with assms(3) show ?thesis
    by (cases e) (auto simp add: edit_of_value_def)
qed

lemma period_store_changes:
  assumes "period_ref s = Some period" "period' \<noteq> period"
  shows "profiles (period_store s period') \<noteq> profiles s"
proof
  define i where "i = nat (sint (current_profile s))"
  define j where "j = nat (sint (current_edit_period_index s))"
  assume eq: "profiles (period_store s period') = profiles s"
  from assms(1) have b: "i < length (profiles s)" "j < length (periods (profiles s ! i))"
    "periods (profiles s ! i) ! j = period"
    by (auto simp add: period_ref_def array_at_def i_def j_def word_sle_eq nat_less_iff
        split: option.splits if_splits)
  from eq have "(profiles s)[i := (profiles s ! i)\<lparr>periods := (periods (profiles s ! i))[j := period']\<rparr>]
                  = profiles s"
    by (simp add: period_store_def Let_def i_def j_def)
  then have "(profiles s)[i := (profiles s ! i)\<lparr>periods := (periods (profiles s ! i))[j := period']\<rparr>] ! i
               = profiles s ! i" by simp
  with b(1) have "(profiles s ! i)\<lparr>periods := (periods (profiles s ! i))[j := period']\<rparr> = profiles s ! i"
    by simp
  then have "periods ((profiles s ! i)\<lparr>periods := (periods (profiles s ! i))[j := period']\<rparr>)
               = periods (profiles s ! i)" by simp
  then have "(periods (profiles s ! i))[j := period'] ! j = periods (profiles s ! i) ! j" by simp
  with b(2,3) assms(2) show False by simp
qed

lemma period_ref_frame [simp]:
  "period_ref (s\<lparr>last_encoder_time := t\<rparr>) = period_ref s"
  by (simp add: period_ref_def split: option.splits)

lemma period_store_frame [simp]:
  "redraws (period_store s p) = redraws s"
  "current_app_mode (period_store s p) = current_app_mode s"
  by (simp_all add: period_store_def Let_def)

lemma same_navigation_frame [simp]:
  "same_navigation_and_profiles (s\<lparr>last_encoder_time := t\<rparr>) s' = same_navigation_and_profiles s s'"
  by (simp add: same_navigation_and_profiles_def)

lemma quiet_edit_profile:
  "same_navigation_and_profiles s (app_encoder_edit_profile delta s)
     \<Longrightarrow> redraws (app_encoder_edit_profile delta s) = redraws s"
  by (simp add: app_encoder_edit_profile_def Let_def same_navigation_and_profiles_def
      app_redraw_def split: if_splits)

lemma quiet_edit_period:
  assumes "same_navigation_and_profiles s (app_encoder_edit_period delta s)"
  shows "redraws (app_encoder_edit_period delta s) = redraws s"
proof -
  from assms have "current_edit_value (app_encoder_edit_period delta s) = current_edit_value s"
    by (simp add: same_navigation_and_profiles_def)
  then show ?thesis
    using edit_of_value_changes [of "edit_value (current_edit_value s) + delta" "current_edit_value s"]
    by (auto simp add: app_encoder_edit_period_def Let_def app_redraw_def EDIT_FIRST_def
        EDIT_LAST_def edit_of_value_def split: if_splits)
qed

lemma quiet_time_shift:
  "same_navigation_and_profiles s (app_encoder_time_shift delta s)
     \<Longrightarrow> redraws (app_encoder_time_shift delta s) = redraws s"
  by (simp add: app_encoder_time_shift_def Let_def same_navigation_and_profiles_def
      app_redraw_def split: if_splits)

lemma quiet_edit_duration:
  assumes "app_encoder_edit_duration delta s = Inr s'" "same_navigation_and_profiles s s'"
  shows "redraws s' = redraws s"
proof -
  from assms(1) obtain period where p: "period_ref s = Some period"
    by (auto simp add: app_encoder_edit_duration_def split: option.splits)
  define d where "d = (let new_duration = duration period + delta * 60 in
                        if new_duration <s 0 then 0
                        else if 24 * 60 <s new_duration then 24 * 60 else new_duration)"
  show ?thesis
  proof (cases "d = duration period")
    case True
    with assms(1) p show ?thesis
      by (simp add: app_encoder_edit_duration_def d_def Let_def)
  next
    case False
    then have "period\<lparr>duration := d\<rparr> \<noteq> period"
      by (metis period_t.select_convs(1) period_t.surjective period_t.update_convs(1))
    from period_store_changes [OF p this] have "profiles (period_store s (period\<lparr>duration := d\<rparr>)) \<noteq> profiles s" .
    moreover from assms(1) p False have "s' = app_redraw (period_store s (period\<lparr>duration := d\<rparr>))"
      by (simp add: app_encoder_edit_duration_def d_def Let_def)
    ultimately show ?thesis
      using assms(2) by (simp add: same_navigation_and_profiles_def app_redraw_def)
  qed
qed

lemma quiet_edit_white_red_level:
  assumes "app_encoder_edit_white_red_level delta s = Inr s'" "same_navigation_and_profiles s s'"
  shows "redraws s' = redraws s"
proof -
  from assms(1) obtain period where p: "period_ref s = Some period"
    by (auto simp add: app_encoder_edit_white_red_level_def split: option.splits)
  define v where "v = (let new_level = led_white_red_power period + delta * 5 in
                        if new_level <s 0 then 0
                        else if 100 <s new_level then 100 else new_level)"
  show ?thesis
  proof (cases "v = led_white_red_power period")
    case True
    with assms(1) p show ?thesis
      by (auto simp add: app_encoder_edit_white_red_level_def v_def Let_def app_apply_state_def)
  next
    case False
    then have "period\<lparr>led_white_red_power := v\<rparr> \<noteq> period"
      by (metis period_t.select_convs(2) period_t.surjective period_t.update_convs(2))
    from period_store_changes [OF p this]
    have "profiles (period_store s (period\<lparr>led_white_red_power := v\<rparr>)) \<noteq> profiles s" .
    moreover from assms(1) p False
    have "profiles s' = profiles (period_store s (period\<lparr>led_white_red_power := v\<rparr>))"
      by (auto simp add: app_encoder_edit_white_red_level_def v_def Let_def app_apply_state_def
          app_redraw_def)
    ultimately show ?thesis
      using assms(2) by (simp add: same_navigation_and_profiles_def)
  qed
qed

lemma quiet_edit_blue_level:
  assumes "app_encoder_edit_blue_level delta s = Inr s'" "same_navigation_and_profiles s s'"
  shows "redraws s' = redraws s"
proof -
  from assms(1) obtain period where p: "period_ref s = Some period"
    by (auto simp add: app_encoder_edit_blue_level_def split: option.splits)
  define v where "v = (let new_level = led_blue_power period + delta * 5 in
                        if new_level <s 0 then 0
                        else if 100 <s new_level then 100 else new_level)"
  show ?thesis
  proof (cases "v = led_blue_power period")
    case True
    with assms(1) p show ?thesis
      by (auto simp add: app_encoder_edit_blue_level_def v_def Let_def app_apply_state_def)
  next
    case False
    then have "period\<lparr>led_blue_power := v\<rparr> \<noteq> period"
      by (metis period_t.select_convs(3) period_t.surjective period_t.update_convs(3))
    from period_store_changes [OF p this]
    have "profiles (period_store s (period\<lparr>led_blue_power := v\<rparr>)) \<noteq> profiles s" .
    moreover from assms(1) p False
    have "profiles s' = profiles (period_store s (period\<lparr>led_blue_power := v\<rparr>))"
      by (auto simp add: app_encoder_edit_blue_level_def v_def Let_def app_apply_state_def
          app_redraw_def)
    ultimately show ?thesis
      using assms(2) by (simp add: same_navigation_and_profiles_def)
  qed
qed

lemma always_redraw:
  "redraws (app_encoder_show_profile delta s) = redraws s + 1"
  "redraws (app_encoder_top_menu delta s) = redraws s + 1"
  by (simp_all add: app_encoder_show_profile_def app_encoder_top_menu_def Let_def app_redraw_def)

text \<open>
  C6, as amended. In the profile editor, the period editor, the three value editors and the
  time-shift editor, a rotation that leaves the navigation state and the profiles unchanged
  requests no redraw. In the state display, the profile browser and the top menu every
  rotation by a non-zero step requests exactly one redraw.
\<close>

theorem rotate_redraw_on_change:
  assumes "app_on_encoder_change now delta s = Inr s'"
  shows "(current_app_mode s \<in> {MODE_EDIT_PROFILE, MODE_EDIT_PERIOD, MODE_EDIT_DURATION,
                                 MODE_EDIT_WR_LEVEL, MODE_EDIT_BL_LEVEL, MODE_TIME_SHIFT}
            \<and> same_navigation_and_profiles s s' \<longrightarrow> redraws s' = redraws s)
       \<and> (current_app_mode s \<in> {MODE_SHOW_STATE, MODE_SHOW_PROFILE, MODE_TOP_MENU}
            \<and> delta \<noteq> 0 \<longrightarrow> redraws s' = redraws s + 1)"
proof (cases "delta = 0")
  case True
  with assms show ?thesis by (simp add: app_on_encoder_change_def)
next
  case False
  define s1 where "s1 = s\<lparr>last_encoder_time := now\<rparr>"
  have f: "redraws s1 = redraws s" "same_navigation_and_profiles s1 s' = same_navigation_and_profiles s s'"
    "current_app_mode s1 = current_app_mode s"
    by (simp_all add: s1_def)
  show ?thesis
  proof (cases "current_app_mode s")
    case MODE_SHOW_STATE
    with False assms show ?thesis
      by (auto simp add: app_on_encoder_change_def always_redraw)
  next
    case MODE_SHOW_PROFILE
    with False assms show ?thesis
      by (auto simp add: app_on_encoder_change_def always_redraw)
  next
    case MODE_EDIT_PROFILE
    with False assms quiet_edit_profile [of s1 delta] f show ?thesis
      by (auto simp add: app_on_encoder_change_def s1_def [symmetric])
  next
    case MODE_EDIT_PERIOD
    with False assms quiet_edit_period [of s1 delta] f show ?thesis
      by (auto simp add: app_on_encoder_change_def s1_def [symmetric])
  next
    case MODE_EDIT_WR_LEVEL
    with False assms quiet_edit_white_red_level [of delta s1 s'] f show ?thesis
      by (auto simp add: app_on_encoder_change_def s1_def [symmetric])
  next
    case MODE_EDIT_BL_LEVEL
    with False assms quiet_edit_blue_level [of delta s1 s'] f show ?thesis
      by (auto simp add: app_on_encoder_change_def s1_def [symmetric])
  next
    case MODE_EDIT_DURATION
    with False assms quiet_edit_duration [of delta s1 s'] f show ?thesis
      by (auto simp add: app_on_encoder_change_def s1_def [symmetric])
  next
    case MODE_TOP_MENU
    with False assms show ?thesis
      by (auto simp add: app_on_encoder_change_def always_redraw)
  next
    case MODE_TIME_SHIFT
    with False assms quiet_time_shift [of s1 delta] f show ?thesis
      by (auto simp add: app_on_encoder_change_def s1_def [symmetric])
  qed
qed

theorem rotate_redraw_on_change_witness:
  "app_on_encoder_change 2000000 7 on_back_row = Inr (on_back_row\<lparr>last_encoder_time := 2000000\<rparr>)
   \<and> current_app_mode on_back_row = MODE_EDIT_PROFILE
   \<and> same_navigation_and_profiles on_back_row (on_back_row\<lparr>last_encoder_time := 2000000\<rparr>)
   \<and> redraws (on_back_row\<lparr>last_encoder_time := 2000000\<rparr>) = redraws on_back_row
   \<and> app_on_encoder_change 1000000 1 booted
        = Inr (booted\<lparr>last_encoder_time := 1000000, menu_profile_index := 1,
                       current_app_mode := MODE_SHOW_PROFILE, redraws := 2\<rparr>)
   \<and> redraws (booted\<lparr>last_encoder_time := 1000000, menu_profile_index := 1,
                       current_app_mode := MODE_SHOW_PROFILE, redraws := 2\<rparr>) = redraws booted + 1"
proof -
  have a: "app_on_encoder_change 2000000 7 on_back_row
             = Inr (on_back_row\<lparr>last_encoder_time := 2000000\<rparr>)"
    by (simp add: on_back_row_def booted_def power_on_def static_init_def handler_defs
        MAX_PERIODS_def word_sle_eq word_sless_alt)
  have b: "app_on_encoder_change 1000000 1 booted
             = Inr (booted\<lparr>last_encoder_time := 1000000, menu_profile_index := 1,
                       current_app_mode := MODE_SHOW_PROFILE, redraws := 2\<rparr>)"
    by (simp add: booted_def power_on_def static_init_def handler_defs
        MAX_PROFILES_def word_sle_eq word_sless_alt)
  have m: "current_app_mode on_back_row = MODE_EDIT_PROFILE" "current_app_mode booted = MODE_SHOW_STATE"
    by (simp_all add: on_back_row_def booted_def power_on_def static_init_def)
  have n: "same_navigation_and_profiles on_back_row (on_back_row\<lparr>last_encoder_time := 2000000\<rparr>)"
    by (simp add: same_navigation_and_profiles_def)
  from rotate_redraw_on_change [OF a] rotate_redraw_on_change [OF b] a b m n
  show ?thesis by simp
qed

text \<open>
  C6 as stated fails in the state display: with the active profile 0 shown, five steps wrap
  the browsed index back to 0, nothing but the input time changes, and the display is
  redrawn.
\<close>

theorem rotate_wrap_redraws_counterexample:
  "app_on_encoder_change 1000000 5 booted
     = Inr (booted\<lparr>last_encoder_time := 1000000, redraws := 2\<rparr>)
   \<and> same_navigation_and_profiles booted (booted\<lparr>last_encoder_time := 1000000, redraws := 2\<rparr>)
   \<and> current_app_state (booted\<lparr>last_encoder_time := 1000000, redraws := 2\<rparr>)
       = current_app_state booted
   \<and> redraws booted = 1
   \<and> redraws (booted\<lparr>last_encoder_time := 1000000, redraws := 2\<rparr>) = 2"
  by (simp add: same_navigation_and_profiles_def)
    (simp add: booted_def power_on_def static_init_def handler_defs MAX_PROFILES_def
      word_sle_eq word_sless_alt)

end
